theory Spec2Isabelle
  imports Complex_Main "HOL-Library.Sublist"
begin

section \<open>Go primitives used by \<^verbatim>\<open>internal/videos/main.go\<close>\<close>

text \<open>
  Go's \<^verbatim>\<open>int\<close> and \<^verbatim>\<open>time.Duration\<close> are 64-bit signed integers. They are modelled as
  \<^typ>\<open>int\<close>, and every arithmetic operation of the source that can leave the 64-bit
  range is wrapped with \<open>wrap64\<close>. A duration counts nanoseconds.

  \<^verbatim>\<open>float64\<close> values are modelled as exact rationals: \<^verbatim>\<open>Duration.Seconds()\<close>,
  \<^verbatim>\<open>math.Max\<close>, \<^verbatim>\<open>math.Min\<close>, \<^verbatim>\<open>math.Ceil\<close> and the conversion \<^verbatim>\<open>int(x)\<close> (truncation
  toward zero) compute without rounding error, and NaN and the infinities are not
  values of the model.
\<close>

type_synonym duration = int

definition wrap64 :: "int \<Rightarrow> int" where
  "wrap64 x = (x + 9223372036854775808) mod 18446744073709551616 - 9223372036854775808"

definition Second :: duration where
  "Second = 1000000000"

definition secondsDuration :: "int \<Rightarrow> duration" where
  \<comment> \<open>\<^verbatim>\<open>time.Duration(n) * time.Second\<close>\<close>
  "secondsDuration n = wrap64 (n * Second)"

definition Seconds :: "duration \<Rightarrow> rat" where
  \<comment> \<open>\<^verbatim>\<open>d.Seconds()\<close>\<close>
  "Seconds d = of_int d / 1000000000"

definition go_int :: "rat \<Rightarrow> int" where
  \<comment> \<open>\<^verbatim>\<open>int(x)\<close> of a float: the fraction is discarded\<close>
  "go_int x = (if x < 0 then - \<lfloor>- x\<rfloor> else \<lfloor>x\<rfloor>)"

definition go_quo :: "int \<Rightarrow> int \<Rightarrow> int" where
  \<comment> \<open>integer \<^verbatim>\<open>/\<close>: the quotient is truncated toward zero\<close>
  "go_quo a b = sgn a * sgn b * (\<bar>a\<bar> div \<bar>b\<bar>)"

definition go_rem :: "int \<Rightarrow> int \<Rightarrow> int" where
  \<comment> \<open>integer \<^verbatim>\<open>%\<close>: the remainder has the sign of the dividend\<close>
  "go_rem a b = a - b * go_quo a b"

subsection \<open>Formatting integers\<close>

fun show_nat :: "nat \<Rightarrow> string" where
  "show_nat n =
     (if n < 10 then [char_of (48 + n)]
      else show_nat (n div 10) @ [char_of (48 + n mod 10)])"

declare show_nat.simps [simp del]

definition fmt_d :: "int \<Rightarrow> string" where
  \<comment> \<open>the verb \<^verbatim>\<open>%d\<close>\<close>
  "fmt_d i = (if i < 0 then CHR ''-'' # show_nat (nat (- i)) else show_nat (nat i))"

definition fmt_02d :: "int \<Rightarrow> string" where
  \<comment> \<open>the verb \<^verbatim>\<open>%02d\<close>: zero padding to width 2, the sign counted in the width\<close>
  "fmt_02d i =
     (if i < 0 then CHR ''-'' # show_nat (nat (- i))
      else (let s = show_nat (nat i) in if length s < 2 then CHR ''0'' # s else s))"

subsection \<open>Package \<^verbatim>\<open>strings\<close>\<close>

text \<open>Strings are byte sequences, as in Go.\<close>

definition HasPrefix :: "string \<Rightarrow> string \<Rightarrow> bool" where
  "HasPrefix s p = prefix p s"

fun Contains :: "string \<Rightarrow> string \<Rightarrow> bool" where
  "Contains [] sub = (sub = [])"
| "Contains (c # cs) sub = (prefix sub (c # cs) \<or> Contains cs sub)"

fun stringsIndex_from :: "nat \<Rightarrow> string \<Rightarrow> string \<Rightarrow> int" where
  "stringsIndex_from i [] sub = (if sub = [] then int i else - 1)"
| "stringsIndex_from i (c # cs) sub =
     (if prefix sub (c # cs) then int i else stringsIndex_from (Suc i) cs sub)"

definition stringsIndex :: "string \<Rightarrow> string \<Rightarrow> int" where
  \<comment> \<open>\<^verbatim>\<open>strings.Index\<close>: the first position of \<open>sub\<close>, or \<open>-1\<close>\<close>
  "stringsIndex s sub = stringsIndex_from 0 s sub"

text \<open>
  \<^verbatim>\<open>strings.Split(s, sep)\<close> for a non-empty separator: the pieces between the leftmost
  non-overlapping occurrences of \<open>sep\<close>. \<open>cur\<close> collects the piece being read.
\<close>

function Split_go :: "string \<Rightarrow> string \<Rightarrow> string \<Rightarrow> string list" where
  "Split_go sep cur s =
     (if s = [] then [cur]
      else if sep \<noteq> [] \<and> prefix sep s then cur # Split_go sep [] (drop (length sep) s)
      else Split_go sep (cur @ [hd s]) (tl s))"
  by pat_completeness auto
termination
  by (relation "measure (\<lambda>(sep, cur, s). length s)") auto

declare Split_go.simps [simp del]

definition Split :: "string \<Rightarrow> string \<Rightarrow> string list" where
  "Split s sep = Split_go sep [] s"

text \<open>
  \<^verbatim>\<open>strings.ReplaceAll(s, old, new)\<close> for a non-empty \<open>old\<close>: the leftmost
  non-overlapping occurrences are replaced.
\<close>

function ReplaceAll :: "string \<Rightarrow> string \<Rightarrow> string \<Rightarrow> string" where
  "ReplaceAll s old new =
     (if s = [] then []
      else if old \<noteq> [] \<and> prefix old s then new @ ReplaceAll (drop (length old) s) old new
      else hd s # ReplaceAll (tl s) old new)"
  by pat_completeness auto
termination
  by (relation "measure (\<lambda>(s, old, new). length s)") auto

declare ReplaceAll.simps [simp del]

text \<open>
  \<^verbatim>\<open>strings.TrimSpace\<close> removes leading and trailing white space as Unicode defines it.
  On the UTF-8 bytes of a string these are the six ASCII characters and the encodings
  of U+0085, U+00A0, U+1680, U+2000 to U+200A, U+2028, U+2029, U+202F, U+205F and U+3000.
  \<open>space_width s\<close> is the byte length of the white space character \<open>s\<close> starts with,
  \<open>0\<close> when it starts with none.
\<close>

definition asciiSpace :: "char \<Rightarrow> bool" where
  "asciiSpace c = (c = CHR 0x09 \<or> c = CHR 0x0A \<or> c = CHR 0x0B \<or> c = CHR 0x0C
                   \<or> c = CHR 0x0D \<or> c = CHR 0x20)"

fun space_width :: "string \<Rightarrow> nat" where
  "space_width [] = 0"
| "space_width [c] = (if asciiSpace c then 1 else 0)"
| "space_width [c, d] =
     (if asciiSpace c then 1
      else if c = CHR 0xC2 \<and> (d = CHR 0x85 \<or> d = CHR 0xA0) then 2 else 0)"
| "space_width (c # d # e # _) =
     (if asciiSpace c then 1
      else if c = CHR 0xC2 \<and> (d = CHR 0x85 \<or> d = CHR 0xA0) then 2
      else if c = CHR 0xE1 \<and> d = CHR 0x9A \<and> e = CHR 0x80 then 3
      else if c = CHR 0xE2 \<and> d = CHR 0x80
              \<and> ((128::nat) \<le> of_char e \<and> of_char e \<le> (138::nat)
                   \<or> e = CHR 0xA8 \<or> e = CHR 0xA9 \<or> e = CHR 0xAF)
        then 3
      else if c = CHR 0xE2 \<and> d = CHR 0x81 \<and> e = CHR 0x9F then 3
      else if c = CHR 0xE3 \<and> d = CHR 0x80 \<and> e = CHR 0x80 then 3
      else 0)"

function TrimLeft :: "string \<Rightarrow> string" where
  "TrimLeft s = (if space_width s = 0 then s else TrimLeft (drop (space_width s) s))"
  by pat_completeness auto
termination
proof (relation "measure length")
  fix s :: string
  assume "space_width s \<noteq> 0"
  then have "s \<noteq> []" by (cases s) auto
  with \<open>space_width s \<noteq> 0\<close> show "(drop (space_width s) s, s) \<in> measure length"
    by simp
qed simp

declare TrimLeft.simps [simp del]

text \<open>
  From the right, the last character is looked for among the last three bytes: it is a
  white space character when some suffix of at most three bytes is exactly one.
\<close>

definition space_width_end :: "string \<Rightarrow> nat" where
  "space_width_end s =
     (let n = length s in
      if 1 \<le> n \<and> space_width (drop (n - 1) s) = 1 then 1
      else if 2 \<le> n \<and> space_width (drop (n - 2) s) = 2 then 2
      else if 3 \<le> n \<and> space_width (drop (n - 3) s) = 3 then 3
      else 0)"

function TrimRight :: "string \<Rightarrow> string" where
  "TrimRight s =
     (if space_width_end s = 0 then s
      else TrimRight (take (length s - space_width_end s) s))"
  by pat_completeness auto
termination
proof (relation "measure length")
  fix s :: string
  assume "space_width_end s \<noteq> 0"
  then have "0 < space_width_end s" and "space_width_end s \<le> length s"
    by (auto simp: space_width_end_def Let_def split: if_splits)
  then show "(take (length s - space_width_end s) s, s) \<in> measure length"
    by simp
qed simp

declare TrimRight.simps [simp del]

definition TrimSpace :: "string \<Rightarrow> string" where
  "TrimSpace s = TrimRight (TrimLeft s)"

section \<open>The timed-text formatter\<close>

record SubtitleEntry =
  Index :: int
  StartTime :: duration
  EndTime :: duration
  Text :: string

subsection \<open>\<^verbatim>\<open>cleanSubtitleText\<close>\<close>

definition isDigit :: "char \<Rightarrow> bool" where
  \<comment> \<open>\<^verbatim>\<open>'0' <= c && c <= '9'\<close>\<close>
  "isDigit c = ((48::nat) \<le> of_char c \<and> of_char c \<le> (57::nat))"

definition matches_at :: "(char \<Rightarrow> bool) list \<Rightarrow> string \<Rightarrow> bool" where
  \<comment> \<open>the string starts with characters that satisfy the pattern position by position\<close>
  "matches_at pat s =
     (length pat \<le> length s \<and> list_all2 (\<lambda>p c. p c) pat (take (length pat) s))"

definition timestampPattern :: "(char \<Rightarrow> bool) list" where
  \<comment> \<open>the regular expression \<^verbatim>\<open><\d{2}:\d{2}:\d{2}\.\d{3}>\<close>\<close>
  "timestampPattern =
     [(=) CHR ''<'', isDigit, isDigit, (=) CHR '':'', isDigit, isDigit, (=) CHR '':'',
      isDigit, isDigit, (=) CHR ''.'', isDigit, isDigit, isDigit, (=) CHR ''>'']"

function removeTimestamps :: "string \<Rightarrow> string" where
  \<comment> \<open>\<^verbatim>\<open>timestampPattern.ReplaceAllString(text, "")\<close>\<close>
  "removeTimestamps s =
     (if s = [] then []
      else if matches_at timestampPattern s then removeTimestamps (drop 14 s)
      else hd s # removeTimestamps (tl s))"
  by pat_completeness auto
termination
  by (relation "measure length") auto

declare removeTimestamps.simps [simp del]

function removeStyle :: "string \<Rightarrow> string" where
  \<comment> \<open>\<^verbatim>\<open>stylePattern.ReplaceAllString(text, "")\<close> for the regular expression \<^verbatim>\<open></?c>\<close>\<close>
  "removeStyle s =
     (if s = [] then []
      else if prefix ''<c>'' s then removeStyle (drop 3 s)
      else if prefix ''</c>'' s then removeStyle (drop 4 s)
      else hd s # removeStyle (tl s))"
  by pat_completeness auto
termination
  by (relation "measure length") auto

declare removeStyle.simps [simp del]

definition cleanSubtitleText :: "string \<Rightarrow> string" where
  "cleanSubtitleText text =
     TrimSpace (ReplaceAll (removeStyle (removeTimestamps text)) ''  '' '' '')"

subsection \<open>\<^verbatim>\<open>formatSRTTimestamp\<close> and \<^verbatim>\<open>getSubtitlesForTimeRange\<close>\<close>

definition formatSRTTimestamp :: "int \<Rightarrow> string" where
  "formatSRTTimestamp seconds =
     (let hours = go_quo seconds 3600;
          minutes = go_quo (go_rem seconds 3600) 60;
          secs = go_rem seconds 60
      in fmt_02d hours @ '':'' @ fmt_02d minutes @ '':'' @ fmt_02d secs @ '',000'')"

definition inRange :: "SubtitleEntry \<Rightarrow> int \<Rightarrow> int \<Rightarrow> bool" where
  \<comment> \<open>the test of the loop, on \<open>startTime\<close> and \<open>endTime\<close>\<close>
  "inRange entry startSeconds endSeconds =
     (StartTime entry \<le> secondsDuration endSeconds
      \<and> EndTime entry \<ge> secondsDuration startSeconds)"

definition adjustedStart :: "SubtitleEntry \<Rightarrow> int \<Rightarrow> int" where
  "adjustedStart entry startSeconds =
     go_int (max 0 (Seconds (StartTime entry) - of_int startSeconds))"

definition adjustedEnd :: "SubtitleEntry \<Rightarrow> int \<Rightarrow> int \<Rightarrow> int" where
  "adjustedEnd entry startSeconds endSeconds =
     go_int (min (of_int (wrap64 (endSeconds - startSeconds)))
                 (Seconds (EndTime entry) - of_int startSeconds))"

definition newline :: string where
  "newline = [CHR 0x0A]"

definition writeBlock :: "int \<Rightarrow> int \<Rightarrow> int \<Rightarrow> string \<Rightarrow> string" where
  \<comment> \<open>\<^verbatim>\<open>fmt.Sprintf("%d\n%s --> %s\n%s\n\n", index, startStr, endStr, cleanedText)\<close>\<close>
  "writeBlock index start end cleanedText =
     fmt_d index @ newline @ formatSRTTimestamp start @ '' --> '' @ formatSRTTimestamp end
       @ newline @ cleanedText @ newline @ newline"

text \<open>
  The loop over the entries; \<open>index\<close> is the number of the next block. It counts the
  blocks written, so it stays far below \<open>2^63\<close> and is not wrapped.
\<close>

fun subtitleLoop :: "int \<Rightarrow> int \<Rightarrow> int \<Rightarrow> SubtitleEntry list \<Rightarrow> string" where
  "subtitleLoop startSeconds endSeconds index [] = []"
| "subtitleLoop startSeconds endSeconds index (entry # entries) =
     (if inRange entry startSeconds endSeconds
      then writeBlock index (adjustedStart entry startSeconds)
             (adjustedEnd entry startSeconds endSeconds) (cleanSubtitleText (Text entry))
           @ subtitleLoop startSeconds endSeconds (index + 1) entries
      else subtitleLoop startSeconds endSeconds index entries)"

definition getSubtitlesForTimeRange :: "SubtitleEntry list \<Rightarrow> int \<Rightarrow> int \<Rightarrow> string" where
  "getSubtitlesForTimeRange subtitleEntries startSeconds endSeconds =
     subtitleLoop startSeconds endSeconds 1 subtitleEntries"

text \<open>
  The blocks the loop writes, as data: number, start and end in whole seconds, text.
  \<open>subtitleLoop_blocks\<close> below shows that the document is these blocks, written in order.
\<close>

record Block =
  number :: int
  startSec :: int
  endSec :: int
  body :: string

fun blocksFrom :: "int \<Rightarrow> int \<Rightarrow> int \<Rightarrow> SubtitleEntry list \<Rightarrow> Block list" where
  "blocksFrom startSeconds endSeconds index [] = []"
| "blocksFrom startSeconds endSeconds index (entry # entries) =
     (if inRange entry startSeconds endSeconds
      then \<lparr>number = index, startSec = adjustedStart entry startSeconds,
            endSec = adjustedEnd entry startSeconds endSeconds,
            body = cleanSubtitleText (Text entry)\<rparr>
           # blocksFrom startSeconds endSeconds (index + 1) entries
      else blocksFrom startSeconds endSeconds index entries)"

definition blocks :: "SubtitleEntry list \<Rightarrow> int \<Rightarrow> int \<Rightarrow> Block list" where
  "blocks subtitleEntries startSeconds endSeconds =
     blocksFrom startSeconds endSeconds 1 subtitleEntries"

definition render :: "Block \<Rightarrow> string" where
  "render b = writeBlock (number b) (startSec b) (endSec b) (body b)"

definition fitsSeconds :: "int \<Rightarrow> bool" where
  \<comment> \<open>a number of seconds whose duration in nanoseconds fits 64 bits\<close>
  "fitsSeconds n = (- 9223372036 \<le> n \<and> n \<le> 9223372036)"

section \<open>The timed-text parser\<close>

subsection \<open>\<^verbatim>\<open>time.ParseDuration\<close>\<close>

text \<open>
  \<open>parseTimestamp\<close> reads every field with \<^verbatim>\<open>time.ParseDuration\<close> of the standard
  library, which accepts \<^verbatim>\<open>[-+]?([0-9]*(\.[0-9]*)?[a-z]+)+\<close>. It is modelled after its
  source in package \<^verbatim>\<open>time\<close>: \<open>None\<close> is the error return (whose duration is \<open>0\<close>). The
  unsigned 64-bit values are non-negative integers here, and the accumulator wraps
  where the library's does. The fraction of a term,
  which the library scales in \<^verbatim>\<open>float64\<close>, is scaled exactly.
\<close>

definition digitVal :: "char \<Rightarrow> int" where
  "digitVal c = of_char c - 48"

fun leadingInt_go :: "int \<Rightarrow> string \<Rightarrow> (int \<times> string) option" where
  "leadingInt_go x [] = Some (x, [])"
| "leadingInt_go x (c # cs) =
     (if \<not> isDigit c then Some (x, c # cs)
      else if x > 9223372036854775808 div 10 then None
      else (let y = x * 10 + digitVal c
            in if y > 9223372036854775808 then None else leadingInt_go y cs))"

definition leadingInt :: "string \<Rightarrow> (int \<times> string) option" where
  "leadingInt s = leadingInt_go 0 s"

fun leadingFraction_go :: "int \<Rightarrow> int \<Rightarrow> bool \<Rightarrow> string \<Rightarrow> int \<times> int \<times> string" where
  "leadingFraction_go x scale overflow [] = (x, scale, [])"
| "leadingFraction_go x scale overflow (c # cs) =
     (if \<not> isDigit c then (x, scale, c # cs)
      else if overflow then leadingFraction_go x scale overflow cs
      else if x > 9223372036854775807 div 10 then leadingFraction_go x scale True cs
      else (let y = x * 10 + digitVal c
            in if y > 9223372036854775808 then leadingFraction_go x scale True cs
               else leadingFraction_go y (scale * 10) overflow cs))"

definition leadingFraction :: "string \<Rightarrow> int \<times> int \<times> string" where
  "leadingFraction s = leadingFraction_go 0 1 False s"

definition unitMap :: "string \<Rightarrow> int option" where
  "unitMap u =
     (if u = ''ns'' then Some 1
      else if u = ''us'' then Some 1000
      else if u = [CHR 0xC2, CHR 0xB5, CHR ''s''] then Some 1000
      else if u = [CHR 0xCE, CHR 0xBC, CHR ''s''] then Some 1000
      else if u = ''ms'' then Some 1000000
      else if u = ''s'' then Some 1000000000
      else if u = ''m'' then Some 60000000000
      else if u = ''h'' then Some 3600000000000
      else None)"

definition numberChar :: "char \<Rightarrow> bool" where
  \<comment> \<open>\<^verbatim>\<open>c == '.' || '0' <= c && c <= '9'\<close>\<close>
  "numberChar c = (c = CHR ''.'' \<or> isDigit c)"

text \<open>
  One turn of the library's loop on a non-empty \<open>s\<close>: a number, an optional fraction
  and a unit. The result is the term's value in nanoseconds and the rest of the string.
\<close>

definition durationTerm :: "string \<Rightarrow> (int \<times> string) option" where
  "durationTerm s =
     (if \<not> numberChar (hd s) then None
      else case leadingInt s of
        None \<Rightarrow> None
      | Some (v, s1) \<Rightarrow>
          (let pre = (length s \<noteq> length s1);
               (f, scale, s2) =
                  (if s1 \<noteq> [] \<and> hd s1 = CHR ''.'' then leadingFraction (tl s1)
                   else (0, 1, s1));
               post = (s1 \<noteq> [] \<and> hd s1 = CHR ''.'' \<and> length (tl s1) \<noteq> length s2)
           in if \<not> pre \<and> \<not> post then None
              else (let u = takeWhile (\<lambda>c. \<not> numberChar c) s2;
                        s3 = dropWhile (\<lambda>c. \<not> numberChar c) s2
                    in if u = [] then None
                       else case unitMap u of
                         None \<Rightarrow> None
                       | Some unit \<Rightarrow>
                           if v > 9223372036854775808 div unit then None
                           else (let v1 = v * unit;
                                     v2 = (if f > 0 then v1 + (f * unit) div scale else v1)
                                 in if f > 0 \<and> v2 > 9223372036854775808 then None
                                    else Some (v2, s3)))))"

lemma leadingInt_go_length:
  "leadingInt_go x s = Some (v, r) \<Longrightarrow> length r \<le> length s"
  by (induction x s rule: leadingInt_go.induct) (auto simp: Let_def split: if_splits)

lemma leadingFraction_go_length:
  "leadingFraction_go x sc ov s = (f, sc', r) \<Longrightarrow> length r \<le> length s"
  by (induction x sc ov s arbitrary: f sc' r rule: leadingFraction_go.induct)
     (auto simp: Let_def split: if_splits, fastforce+)

lemma durationTerm_shorter:
  assumes "durationTerm s = Some (v, r)"
  shows "length r < length s"
proof -
  from assms obtain v0 s1 where li: "leadingInt s = Some (v0, s1)"
    by (auto simp: durationTerm_def split: if_splits option.splits)
  define s2 where "s2 = (if s1 \<noteq> [] \<and> hd s1 = CHR ''.''
                         then snd (snd (leadingFraction (tl s1))) else s1)"
  have l1: "length s1 \<le> length s"
    using li unfolding leadingInt_def by (rule leadingInt_go_length)
  have l2: "length s2 \<le> length s1"
  proof (cases "s1 \<noteq> [] \<and> hd s1 = CHR ''.''")
    case True
    obtain f sc r' where lf: "leadingFraction (tl s1) = (f, sc, r')"
      by (cases "leadingFraction (tl s1)") auto
    then have "length r' \<le> length (tl s1)"
      unfolding leadingFraction_def by (rule leadingFraction_go_length)
    then show ?thesis using True lf by (simp add: s2_def)
  next
    case False
    then show ?thesis by (auto simp: s2_def)
  qed
  have u: "takeWhile (\<lambda>c. \<not> numberChar c) s2 \<noteq> []"
    and r: "r = dropWhile (\<lambda>c. \<not> numberChar c) s2"
    using assms li
    by (auto simp: durationTerm_def s2_def Let_def
             split: if_splits option.splits prod.splits)
  have "length (takeWhile (\<lambda>c. \<not> numberChar c) s2) + length r = length s2"
    unfolding r by (metis length_append takeWhile_dropWhile_id)
  with u l1 l2 show ?thesis by (cases "takeWhile (\<lambda>c. \<not> numberChar c) s2") auto
qed

function durationLoop :: "int \<Rightarrow> string \<Rightarrow> int option" where
  "durationLoop d s =
     (if s = [] then Some d
      else case durationTerm s of
        None \<Rightarrow> None
      | Some (v, r) \<Rightarrow>
          (let d' = (d + v) mod 18446744073709551616
           in if d' > 9223372036854775808 then None else durationLoop d' r))"
  by pat_completeness auto
termination
  by (relation "measure (\<lambda>(d, s). length s)") (auto dest: durationTerm_shorter)

declare durationLoop.simps [simp del]

definition ParseDuration :: "string \<Rightarrow> duration option" where
  "ParseDuration s0 =
     (let neg = (s0 \<noteq> [] \<and> hd s0 = CHR ''-'');
          s = (if s0 \<noteq> [] \<and> (hd s0 = CHR ''-'' \<or> hd s0 = CHR ''+'') then tl s0 else s0)
      in if s = ''0'' then Some 0
         else if s = [] then None
         else case durationLoop 0 s of
           None \<Rightarrow> None
         | Some d \<Rightarrow>
             if neg then Some (wrap64 (- wrap64 d))
             else if d > 9223372036854775807 then None
             else Some d)"

subsection \<open>\<^verbatim>\<open>parseTimestamp\<close>\<close>

definition orZero :: "duration option \<Rightarrow> duration" where
  \<comment> \<open>\<^verbatim>\<open>d, _ := time.ParseDuration(...)\<close>: the error is dropped, the duration of an error is \<open>0\<close>\<close>
  "orZero r = (case r of None \<Rightarrow> 0 | Some d \<Rightarrow> d)"

definition cutAtSpace :: "string \<Rightarrow> string" where
  \<comment> \<open>\<^verbatim>\<open>if idx := strings.Index(timestamp, " "); idx != -1 { timestamp = timestamp[:idx] }\<close>\<close>
  "cutAtSpace timestamp =
     (let idx = stringsIndex timestamp '' '' in
      if idx \<noteq> - 1 then take (nat idx) timestamp else timestamp)"

definition padMillis :: "string \<Rightarrow> string" where
  \<comment> \<open>the padding loop and the cut to three characters\<close>
  "padMillis ms0 =
     (let ms = ms0 @ replicate (3 - length ms0) CHR ''0''
      in if length ms > 3 then take 3 ms else ms)"

definition hoursOf :: "string \<Rightarrow> duration" where
  "hoursOf p = orZero (ParseDuration (p @ ''h''))"

definition minutesOf :: "string \<Rightarrow> duration" where
  "minutesOf p = orZero (ParseDuration (p @ ''m''))"

definition secondsOf :: "string \<Rightarrow> duration" where
  "secondsOf p = orZero (ParseDuration (p @ ''s''))"

definition millisecondsOf :: "string \<Rightarrow> duration" where
  "millisecondsOf p = orZero (ParseDuration (padMillis p @ ''ms''))"

text \<open>
  \<^verbatim>\<open>strings.Split\<close> never returns an empty list for a non-empty separator, so
  \<^verbatim>\<open>secondParts[0]\<close> exists; the last case below is never taken (\<open>Split_go_nonempty\<close>).
\<close>

definition parseTimestamp :: "string \<Rightarrow> duration" where
  "parseTimestamp timestamp0 =
     (let timestamp = ReplaceAll (cutAtSpace timestamp0) '','' ''.'';
          parts = Split timestamp '':''
      in case parts of
           p0 # p1 # p2 # _ \<Rightarrow>
             (let hours = hoursOf p0;
                  minutes = minutesOf p1;
                  secondParts = Split p2 ''.''
              in case secondParts of
                   sp0 # rest \<Rightarrow>
                     (let seconds = secondsOf sp0;
                          milliseconds = (case rest of [] \<Rightarrow> 0 | ms # _ \<Rightarrow> millisecondsOf ms)
                      in wrap64 (wrap64 (wrap64 (hours + minutes) + seconds) + milliseconds))
                 | [] \<Rightarrow> wrap64 (hours + minutes))
         | _ \<Rightarrow> 0)"

subsection \<open>\<^verbatim>\<open>parseVTTFile\<close>\<close>

record parseState =
  entries :: "SubtitleEntry list"
  currentEntry :: SubtitleEntry
  inEntry :: bool
  index :: int

definition parseLine :: "parseState \<Rightarrow> string \<Rightarrow> parseState" where
  \<comment> \<open>the body of the loop over the lines; \<open>index\<close> counts the cues read, far below \<open>2^63\<close>\<close>
  "parseLine st line0 =
     (let line = TrimSpace line0 in
      if line = [] \<or> line = ''WEBVTT'' \<or> HasPrefix line ''NOTE'' then st
      else if Contains line ''-->'' then
        (let es = (if inEntry st then entries st @ [currentEntry st] else entries st);
             i = index st + 1;
             timestamps = Split line ''-->'';
             cur = (case timestamps of
                      [t0, t1] \<Rightarrow>
                        \<lparr>Index = i, StartTime = parseTimestamp (TrimSpace t0),
                         EndTime = parseTimestamp (TrimSpace t1), Text = []\<rparr>
                    | _ \<Rightarrow> \<lparr>Index = i, StartTime = 0, EndTime = 0, Text = []\<rparr>)
         in \<lparr>entries = es, currentEntry = cur, inEntry = True, index = i\<rparr>)
      else if inEntry st then
        st\<lparr>currentEntry :=
             (currentEntry st)\<lparr>Text :=
               (if Text (currentEntry st) \<noteq> [] then Text (currentEntry st) @ '' '' else [])
               @ line\<rparr>\<rparr>
      else st)"

definition parseContent :: "string \<Rightarrow> SubtitleEntry list" where
  \<comment> \<open>\<open>parseVTTFile\<close> after the file has been read\<close>
  "parseContent content =
     (let st = foldl parseLine
                 \<lparr>entries = [],
                  currentEntry = \<lparr>Index = 0, StartTime = 0, EndTime = 0, Text = []\<rparr>,
                  inEntry = False, index = 0\<rparr>
                 (Split content newline)
      in if inEntry st then entries st @ [currentEntry st] else entries st)"

definition parseVTTFile :: "string option \<Rightarrow> SubtitleEntry list option" where
  \<comment> \<open>the argument is the outcome of \<^verbatim>\<open>ioutil.ReadFile(filePath)\<close>: \<open>None\<close> is its error\<close>
  "parseVTTFile file = map_option parseContent file"

subsection \<open>Reading a document back\<close>





section \<open>The pipeline\<close>

subsection \<open>The environment\<close>

text \<open>
  Everything outside the program (the media tools, the file system, the semantic
  service, the publishing target) is an environment \<open>env\<close> that answers each call from
  the current state of the world \<open>'w\<close> and returns the next one. The program's state is
  the world together with the trace of the calls made so far and their answers.
  Console output is not modelled. A command line is represented by the arguments that
  vary (files, times); the fixed encoder flags are left out.
\<close>

record Cut =
  Title :: string
  Begin :: int
  End :: int

record VideoMetadata =
  metaTitle :: string
  Description :: string
  Tags :: "string list"
  Hashtags :: "string list"

record Channel =
  Topics :: string
  Excerpts :: int
  StretchTime :: int
  CoverVideoBase :: string
  VerticalVideoBase :: string
  HorizontalVideoBase :: string
  UploadToYouTube :: bool

datatype action =
    SplitSegment string int int string
      \<comment> \<open>\<^verbatim>\<open>ffmpeg -i video -ss start -t duration -c copy -y out\<close>\<close>
  | WriteFile string string
  | WriteMetadata string VideoMetadata
      \<comment> \<open>\<^verbatim>\<open>ioutil.WriteFile(metadataFile, json.MarshalIndent(metadata))\<close>\<close>
  | SubClip string int int string
      \<comment> \<open>\<^verbatim>\<open>video.SubClip(begin, end).Output(out).Run()\<close> on the loaded segment\<close>
  | Rename string string
  | Remove string
  | BurnSubtitles string string string
      \<comment> \<open>input, subtitle file, output\<close>
  | Stat string
      \<comment> \<open>\<^verbatim>\<open>os.Stat\<close>: succeeds when the file exists\<close>
  | Mkdir string
  | CoverImage string string string
      \<comment> \<open>cover base, title, output; the \<^verbatim>\<open>drawtext\<close> filter the source builds from the
          title and the channel's font settings is represented by the title\<close>
  | Overlay string string string
      \<comment> \<open>background base, input, output\<close>
  | Upload string string string "string list" string
      \<comment> \<open>\<^verbatim>\<open>UploadToYouTube(videoPath, title, description, tags, privacy)\<close>\<close>

datatype request =
    CutsRequest string string int int
      \<comment> \<open>subtitle content, topics, excerpts, stretch time\<close>
  | MetadataRequest string string string
      \<comment> \<open>video title, subtitle content, topics\<close>

text \<open>
  The outcome of one attempt at the service: no response, a status code whose body
  could not be read, or a status code and the body that was read. \<^verbatim>\<open>http.NewRequest\<close>
  cannot fail on the constant method and URL of the source, and \<^verbatim>\<open>json.Marshal\<close>
  cannot fail on the request body, a map of strings; they have no outcome of their own.
  The prompts are represented by the values they are built from.
\<close>

datatype httpOutcome =
    TransportError
      \<comment> \<open>\<^verbatim>\<open>client.Do\<close> returned an error\<close>
  | ReadError int
      \<comment> \<open>the status code arrived, reading the body failed\<close>
  | Response int string
      \<comment> \<open>the status code and the body\<close>

datatype probeResult =
    ProbeFailed
      \<comment> \<open>ffprobe could not be run\<close>
  | NotANumber
      \<comment> \<open>\<^verbatim>\<open>strconv.ParseFloat\<close> rejected the output\<close>
  | Probed rat

datatype event =
    Ran action bool
  | Slept int
      \<comment> \<open>\<^verbatim>\<open>time.Sleep\<close>, in seconds\<close>
  | Posted int request httpOutcome
      \<comment> \<open>the client's timeout in seconds, the request, the outcome\<close>

text \<open>
  \<^verbatim>\<open>json.Unmarshal(data, &v)\<close> writes into the variable it is given while it decodes, and
  what it has written stays there when it returns an error: a body that is no JSON at
  all is rejected before anything is written, a body with a value of the wrong type is
  decoded around that value and rejected afterwards. A call is therefore a pair: whether
  it returned \<^verbatim>\<open>nil\<close>, and what the variable holds afterwards, given what it held before.
  A response is represented by the \<^verbatim>\<open>content\<close> strings of its choices.
  \<^verbatim>\<open>cutsResponse\<close> is a fresh variable that the source drops on an error, so that decoding
  it has a plain optional result.
\<close>

record 'w env =
  run :: "action \<Rightarrow> 'w \<Rightarrow> bool \<times> 'w"
  readFile :: "string \<Rightarrow> 'w \<Rightarrow> string option \<times> 'w"
  post :: "request \<Rightarrow> 'w \<Rightarrow> httpOutcome \<times> 'w"
  ffprobe :: "string \<Rightarrow> 'w \<Rightarrow> probeResult \<times> 'w"
  loadDuration :: "string \<Rightarrow> 'w \<Rightarrow> rat option \<times> 'w"
    \<comment> \<open>\<^verbatim>\<open>moviego.Load(file)\<close> and \<^verbatim>\<open>video.Duration()\<close>: \<open>None\<close> when loading fails\<close>
  decodeResponse :: "string \<Rightarrow> bool \<times> (string list \<Rightarrow> string list)"
    \<comment> \<open>\<^verbatim>\<open>json.Unmarshal(respBody, &apiResponse)\<close>\<close>
  decodeCuts :: "string \<Rightarrow> Cut list option"
    \<comment> \<open>\<^verbatim>\<open>json.Unmarshal\<close> of a content string into \<^verbatim>\<open>cutsResponse\<close>\<close>
  decodeMetadata :: "string \<Rightarrow> bool \<times> (VideoMetadata \<Rightarrow> VideoMetadata)"
    \<comment> \<open>\<^verbatim>\<open>json.Unmarshal\<close> of a content string into \<^verbatim>\<open>metadata\<close>\<close>

record 'w state =
  world :: 'w
  trace :: "event list"

definition perform :: "'w env \<Rightarrow> action \<Rightarrow> 'w state \<Rightarrow> bool \<times> 'w state" where
  "perform env a st =
     (let (ok, w) = run env a (world st)
      in (ok, \<lparr>world = w, trace = trace st @ [Ran a ok]\<rparr>))"

definition performIgnored :: "'w env \<Rightarrow> action \<Rightarrow> 'w state \<Rightarrow> 'w state" where
  \<comment> \<open>a call whose result the source ignores\<close>
  "performIgnored env a st = snd (perform env a st)"

definition sleep :: "int \<Rightarrow> 'w state \<Rightarrow> 'w state" where
  "sleep n st = st\<lparr>trace := trace st @ [Slept n]\<rparr>"

text \<open>
  One attempt: \<^verbatim>\<open>http.NewRequest\<close> on the buffer that was filled with the request, and
  \<^verbatim>\<open>client.Do\<close>. The event records the request the buffer was filled with; an earlier
  attempt may have read the buffer, and what the service receives then is the
  environment's matter.
\<close>

definition send :: "'w env \<Rightarrow> int \<Rightarrow> request \<Rightarrow> 'w state \<Rightarrow> httpOutcome \<times> 'w state" where
  "send env timeout req st =
     (let (out, w) = post env req (world st)
      in (out, \<lparr>world = w, trace = trace st @ [Posted timeout req out]\<rparr>))"

definition readVTT :: "'w env \<Rightarrow> string \<Rightarrow> 'w state \<Rightarrow> string option \<times> 'w state" where
  "readVTT env path st =
     (let (content, w) = readFile env path (world st) in (content, st\<lparr>world := w\<rparr>))"

subsection \<open>\<^verbatim>\<open>splitLongVideo\<close>\<close>

datatype splitError =
    DurationError
      \<comment> \<open>"error getting video duration"\<close>
  | ConversionError
      \<comment> \<open>"error converting video duration"\<close>
  | SegmentError int
      \<comment> \<open>"error splitting video segment n"\<close>
  | SliceBounds
      \<comment> \<open>the panic of \<^verbatim>\<open>name[:len(name)-4]\<close> on a name shorter than four bytes\<close>

definition segmentDuration :: int where
  "segmentDuration = 1200"

definition partName :: "string \<Rightarrow> int \<Rightarrow> string \<Rightarrow> string" where
  \<comment> \<open>\<^verbatim>\<open>fmt.Sprintf("%s.part%d" + ext, name[:len(name)-4], i+1)\<close>\<close>
  "partName name i ext = take (length name - 4) name @ ''.part'' @ fmt_d (i + 1) @ ext"

record splitVars =
  videoSegments :: "string list"
  subtitleSegments :: "string list"

text \<open>
  The caption block of the loop body: \<^verbatim>\<open>if subtitleEntries, err := parseVTTFile(...);
  err == nil { ... }\<close>. The segment's caption file joins \<open>subtitleSegments\<close> only when it
  has been written.
\<close>

definition segmentCaptions ::
  "'w env \<Rightarrow> string \<Rightarrow> string \<Rightarrow> int \<Rightarrow> splitVars \<Rightarrow> 'w state \<Rightarrow> splitVars \<times> 'w state" where
  "segmentCaptions env subtitleFileName segmentSubtitleFile startTime vars st =
     (let (file, st1) = readVTT env (subtitleFileName @ ''.pt.vtt'') st
      in case parseVTTFile file of
           None \<Rightarrow> (vars, st1)
         | Some subtitleEntries \<Rightarrow>
             (let subtitleText = getSubtitlesForTimeRange subtitleEntries
                    startTime (wrap64 (startTime + segmentDuration));
                  (written, st2) = perform env
                    (WriteFile segmentSubtitleFile subtitleText) st1
              in if \<not> written then (vars, st2)
                 else (vars\<lparr>subtitleSegments :=
                         subtitleSegments vars @ [segmentSubtitleFile]\<rparr>, st2)))"

text \<open>
  The loop \<^verbatim>\<open>for i := 0; i < numSegments; i++\<close>. Since \<open>i < numSegments\<close>, the
  increments \<open>i + 1\<close> stay in range; the product \<open>i * segmentDuration\<close> may wrap.
\<close>

function splitLoop ::
  "'w env \<Rightarrow> string \<Rightarrow> string \<Rightarrow> int \<Rightarrow> int \<Rightarrow> splitVars \<Rightarrow> 'w state
     \<Rightarrow> (splitError + splitVars) \<times> 'w state" where
  "splitLoop env videoFileName subtitleFileName numSegments i vars st =
     (if i < numSegments then
        (let startTime = wrap64 (i * segmentDuration) in
         if length videoFileName < 4 \<or> length subtitleFileName < 4 then (Inl SliceBounds, st)
         else
           (let segmentVideoFile = partName videoFileName i ''.mp4'';
                segmentSubtitleFile = partName subtitleFileName i ''.srt'';
                (ok, st1) = perform env
                   (SplitSegment videoFileName startTime segmentDuration segmentVideoFile) st
            in if \<not> ok then (Inl (SegmentError (i + 1)), st1)
               else
                 (let (vars', st2) = segmentCaptions env subtitleFileName segmentSubtitleFile
                                       startTime vars st1
                  in splitLoop env videoFileName subtitleFileName numSegments (i + 1)
                       (vars'\<lparr>videoSegments := videoSegments vars' @ [segmentVideoFile]\<rparr>)
                       st2)))
      else (Inr vars, st))"
  by pat_completeness auto
termination
  by (relation "measure (\<lambda>(env, v, s, n, i, vars, st). nat (n - i))") auto

declare splitLoop.simps [simp del]

definition splitLongVideo ::
  "'w env \<Rightarrow> string \<Rightarrow> string \<Rightarrow> 'w state \<Rightarrow> (splitError + splitVars) \<times> 'w state" where
  "splitLongVideo env videoFileName subtitleFileName st =
     (let (probed, w) = ffprobe env videoFileName (world st);
          st1 = st\<lparr>world := w\<rparr>
      in case probed of
           ProbeFailed \<Rightarrow> (Inl DurationError, st1)
         | NotANumber \<Rightarrow> (Inl ConversionError, st1)
         | Probed duration \<Rightarrow>
             if duration \<le> of_int segmentDuration
             then (Inr \<lparr>videoSegments = [videoFileName],
                        subtitleSegments = [subtitleFileName]\<rparr>, st1)
             else
               (let numSegments = go_int (of_int \<lceil>duration / of_int segmentDuration\<rceil>)
                in splitLoop env videoFileName subtitleFileName numSegments 0
                     \<lparr>videoSegments = [], subtitleSegments = []\<rparr> st1))"

subsection \<open>\<^verbatim>\<open>GetCuts\<close>\<close>

definition vttPathOf :: "string \<Rightarrow> string" where
  "vttPathOf subtleFileName =
     (if Contains subtleFileName ''.part''
      then (case Split subtleFileName ''.part'' of
              basePath # _ \<Rightarrow> basePath @ ''.srt.pt.vtt''
            | [] \<Rightarrow> ''.srt.pt.vtt'')
      else subtleFileName @ ''.pt.vtt'')"

definition backoff :: "int \<Rightarrow> int" where
  \<comment> \<open>\<^verbatim>\<open>2 << uint(attempt-1)\<close> seconds\<close>
  "backoff attempt = 2 * 2 ^ nat (attempt - 1)"

definition maxRetries :: int where
  "maxRetries = 3"

text \<open>
  The retry loop of \<open>GetCuts\<close>. \<open>statusCode\<close> and \<open>apiResponse\<close> are the variables
  declared before the loop; the result is their value after it. A body that
  \<^verbatim>\<open>json.Unmarshal\<close> rejects leaves in \<open>apiResponse\<close> what was decoded of it, and the next
  attempt starts from there.
\<close>

function cutsAttempts ::
  "'w env \<Rightarrow> request \<Rightarrow> int \<Rightarrow> int \<Rightarrow> string list \<Rightarrow> 'w state
     \<Rightarrow> (int \<times> string list) \<times> 'w state" where
  "cutsAttempts env req attempt statusCode apiResponse st =
     (if attempt < maxRetries then
        (let st1 = (if attempt > 0 then sleep (backoff attempt) st else st);
             (out, st2) = send env 120 req st1
         in case out of
              TransportError \<Rightarrow> cutsAttempts env req (attempt + 1) statusCode apiResponse st2
            | ReadError code \<Rightarrow> cutsAttempts env req (attempt + 1) code apiResponse st2
            | Response code respBody \<Rightarrow>
                if code \<noteq> 200 then cutsAttempts env req (attempt + 1) code apiResponse st2
                else (let (ok, stored) = decodeResponse env respBody
                      in if \<not> ok
                         then cutsAttempts env req (attempt + 1) code (stored apiResponse) st2
                         else ((code, stored apiResponse), st2)))
      else ((statusCode, apiResponse), st))"
  by pat_completeness auto
termination
  by (relation "measure (\<lambda>(env, req, attempt, c, r, st). nat (maxRetries - attempt))") auto

declare cutsAttempts.simps [simp del]

definition GetCuts ::
  "'w env \<Rightarrow> string \<Rightarrow> string \<Rightarrow> int \<Rightarrow> int \<Rightarrow> 'w state \<Rightarrow> Cut list \<times> 'w state" where
  "GetCuts env subtleFileName topics excerpts stretchTime st =
     (let (subtleContent, st1) = readVTT env (vttPathOf subtleFileName) st
      in case subtleContent of
           None \<Rightarrow> ([], st1)
         | Some content \<Rightarrow>
             (let ((statusCode, apiResponse), st2) =
                    cutsAttempts env (CutsRequest content topics excerpts stretchTime)
                      0 0 [] st1
              in if statusCode \<noteq> 200 then ([], st2)
                 else case apiResponse of
                   [] \<Rightarrow> ([], st2)
                 | content # _ \<Rightarrow>
                     (case decodeCuts env content of
                        None \<Rightarrow> ([], st2)
                      | Some cuts \<Rightarrow> (cuts, st2))))"

subsection \<open>\<^verbatim>\<open>GenerateMetadata\<close>\<close>

datatype metadataError = APIError int
  \<comment> \<open>"API error: status code n"\<close>

definition noMetadata :: VideoMetadata where
  \<comment> \<open>the zero value of \<^verbatim>\<open>var metadata VideoMetadata\<close>\<close>
  "noMetadata = \<lparr>metaTitle = [], Description = [], Tags = [], Hashtags = []\<rparr>"

text \<open>
  The retry loop of \<open>GenerateMetadata\<close>. \<open>statusCode\<close> and \<open>metadata\<close> are declared
  before the loop, \<open>apiResponse\<close> inside it: every attempt decodes the body into an
  empty response, and the content of its first choice into the \<open>metadata\<close> that the
  attempts before have left.
\<close>

function metadataAttempts ::
  "'w env \<Rightarrow> request \<Rightarrow> int \<Rightarrow> int \<Rightarrow> VideoMetadata \<Rightarrow> 'w state
     \<Rightarrow> (int \<times> VideoMetadata) \<times> 'w state" where
  "metadataAttempts env req attempt statusCode metadata st =
     (if attempt < maxRetries then
        (let st1 = (if attempt > 0 then sleep (backoff attempt) st else st);
             (out, st2) = send env 60 req st1
         in case out of
              TransportError \<Rightarrow> metadataAttempts env req (attempt + 1) statusCode metadata st2
            | ReadError code \<Rightarrow> metadataAttempts env req (attempt + 1) code metadata st2
            | Response code respBody \<Rightarrow>
                if code \<noteq> 200 then metadataAttempts env req (attempt + 1) code metadata st2
                else (let (ok, stored) = decodeResponse env respBody
                      in if \<not> ok
                         then metadataAttempts env req (attempt + 1) code metadata st2
                         else (case stored [] of
                                 [] \<Rightarrow> metadataAttempts env req (attempt + 1) code metadata st2
                               | content # _ \<Rightarrow>
                                   (let (filled, fill) = decodeMetadata env content
                                    in if \<not> filled
                                       then metadataAttempts env req (attempt + 1) code
                                              (fill metadata) st2
                                       else ((code, fill metadata), st2)))))
      else ((statusCode, metadata), st))"
  by pat_completeness auto
termination
  by (relation "measure (\<lambda>(env, req, attempt, c, m, st). nat (maxRetries - attempt))") auto

declare metadataAttempts.simps [simp del]

text \<open>
  The result is the pair the source returns: the pointer (\<open>None\<close> is \<^verbatim>\<open>nil\<close>) and the
  error (\<open>None\<close> is \<^verbatim>\<open>nil\<close>).
\<close>

definition GenerateMetadata ::
  "'w env \<Rightarrow> string \<Rightarrow> string \<Rightarrow> string \<Rightarrow> 'w state
     \<Rightarrow> (VideoMetadata option \<times> metadataError option) \<times> 'w state" where
  "GenerateMetadata env videoTitle subtitleContent topics st =
     (let ((statusCode, metadata), st1) =
            metadataAttempts env (MetadataRequest videoTitle subtitleContent topics)
              0 0 noMetadata st
      in if statusCode \<noteq> 200 then ((None, Some (APIError statusCode)), st1)
         else ((Some metadata, None), st1))"

subsection \<open>The cut loop of \<^verbatim>\<open>DownloadVideo\<close>\<close>

fun transcriptLoop :: "int \<Rightarrow> int \<Rightarrow> string \<Rightarrow> SubtitleEntry list \<Rightarrow> string" where
  "transcriptLoop b e subtitleContent [] = subtitleContent"
| "transcriptLoop b e subtitleContent (entry # es) =
     transcriptLoop b e
       (if StartTime entry \<ge> secondsDuration b \<and> EndTime entry \<le> secondsDuration e
        then subtitleContent @ '' '' @ cleanSubtitleText (Text entry)
        else subtitleContent)
       es"

definition cutTranscript :: "SubtitleEntry list \<Rightarrow> Cut \<Rightarrow> string" where
  \<comment> \<open>"Extract clean text from subtitles for metadata generation"\<close>
  "cutTranscript subtitleEntries aCut =
     TrimSpace (transcriptLoop (Begin aCut) (End aCut) [] subtitleEntries)"

definition ensureDir :: "'w env \<Rightarrow> string \<Rightarrow> 'w state \<Rightarrow> 'w state" where
  \<comment> \<open>\<^verbatim>\<open>if _, err := os.Stat(dir); os.IsNotExist(err) { os.Mkdir(dir, 0755) }\<close>;
      a failing \<^verbatim>\<open>os.Stat\<close> is taken to report a missing file\<close>
  "ensureDir env dir st =
     (let (found, st1) = perform env (Stat dir) st
      in if \<not> found then performIgnored env (Mkdir dir) st1 else st1)"

definition coverStage :: "'w env \<Rightarrow> Channel \<Rightarrow> string \<Rightarrow> Cut \<Rightarrow> 'w state \<Rightarrow> 'w state" where
  "coverStage env channel outputDir aCut st =
     (if CoverVideoBase channel \<noteq> [] then
        (let coverOutputDir = outputDir @ ''/covers'';
             st1 = ensureDir env coverOutputDir st
         in performIgnored env
              (CoverImage (CoverVideoBase channel) (Title aCut)
                 (coverOutputDir @ ''/'' @ Title aCut @ ''.jpg'')) st1)
      else st)"

definition verticalStage ::
  "'w env \<Rightarrow> Channel \<Rightarrow> string \<Rightarrow> Cut \<Rightarrow> string \<Rightarrow> 'w state \<Rightarrow> 'w state" where
  "verticalStage env channel outputDir aCut outputFileName st =
     (if VerticalVideoBase channel \<noteq> [] then
        (let verticalOutputDir = outputDir @ ''/vertical'';
             st1 = ensureDir env verticalOutputDir st
         in performIgnored env
              (Overlay (VerticalVideoBase channel) outputFileName
                 (verticalOutputDir @ ''/'' @ Title aCut @ ''.mp4'')) st1)
      else st)"

definition horizontalStage ::
  "'w env \<Rightarrow> Channel \<Rightarrow> string \<Rightarrow> Cut \<Rightarrow> string \<Rightarrow> 'w state \<Rightarrow> 'w state" where
  "horizontalStage env channel outputDir aCut outputFileName st =
     (if HorizontalVideoBase channel \<noteq> [] then
        (let horizontalOutputDir = outputDir @ ''/horizontal-yt'';
             st1 = ensureDir env horizontalOutputDir st
         in performIgnored env
              (Overlay (HorizontalVideoBase channel) outputFileName
                 (horizontalOutputDir @ ''/'' @ Title aCut @ ''.mp4'')) st1)
      else st)"

definition uploadStage ::
  "'w env \<Rightarrow> Channel \<Rightarrow> string \<Rightarrow> Cut \<Rightarrow> VideoMetadata option \<Rightarrow> 'w state \<Rightarrow> 'w state" where
  \<comment> \<open>\<^verbatim>\<open>if channel.UploadToYouTube && metadata != nil\<close>\<close>
  "uploadStage env channel outputDir aCut metadata st =
     (if UploadToYouTube channel then
        (case metadata of
           None \<Rightarrow> st
         | Some m \<Rightarrow>
             (let st1 = performIgnored env
                    (Upload (outputDir @ ''/horizontal-yt/'' @ Title aCut @ ''.mp4'')
                       (metaTitle m) (Description m) (Tags m) ''unlisted'') st;
                  verticalFileName = outputDir @ ''/vertical/'' @ Title aCut @ ''.mp4'';
                  (found, st2) = perform env (Stat verticalFileName) st1
              in if found then
                   performIgnored env
                     (Upload verticalFileName (metaTitle m @ '' (Vertical)'')
                        (Description m) (Tags m) ''unlisted'') st2
                 else st2))
      else st)"

text \<open>The body of the cut loop from "Extract clean text from subtitles" on.\<close>

definition finishCut ::
  "'w env \<Rightarrow> Channel \<Rightarrow> string \<Rightarrow> Cut \<Rightarrow> string \<Rightarrow> string \<Rightarrow> string
     \<Rightarrow> SubtitleEntry list \<Rightarrow> 'w state \<Rightarrow> 'w state" where
  "finishCut env channel outputDir aCut tempOutputFileName outputFileName cutSubtitleFileName
     subtitleEntries st =
     (let subtitleContent = cutTranscript subtitleEntries aCut;
          ((metadata, err), st1) =
             GenerateMetadata env (Title aCut) subtitleContent (Topics channel) st;
          st2 = (case (err, metadata) of
                   (None, Some m) \<Rightarrow>
                     performIgnored env
                       (WriteMetadata (outputDir @ ''/horizontal/'' @ Title aCut @ ''.json'') m)
                       st1
                 | _ \<Rightarrow> st1);
          (burned, st3) = perform env
             (BurnSubtitles tempOutputFileName cutSubtitleFileName outputFileName) st2;
          st4 = (if \<not> burned
                 then performIgnored env (Rename tempOutputFileName outputFileName) st3
                 else st3);
          st5 = performIgnored env (Remove tempOutputFileName) st4;
          st6 = performIgnored env (Remove cutSubtitleFileName) st5;
          st7 = coverStage env channel outputDir aCut st6;
          st8 = verticalStage env channel outputDir aCut outputFileName st7;
          st9 = horizontalStage env channel outputDir aCut outputFileName st8
      in uploadStage env channel outputDir aCut metadata st9)"

text \<open>
  The body of \<^verbatim>\<open>for j, cut := range cuts\<close>; every \<^verbatim>\<open>continue\<close> returns the state
  reached.
\<close>

definition processCut ::
  "'w env \<Rightarrow> Channel \<Rightarrow> string \<Rightarrow> string \<Rightarrow> string \<Rightarrow> rat \<Rightarrow> Cut \<Rightarrow> 'w state \<Rightarrow> 'w state" where
  "processCut env channel outputDir subtitleFileName segmentVideoFile videoDuration aCut st =
     (let tempOutputFileName = outputDir @ ''/temp_'' @ Title aCut @ ''.mp4'';
          outputFileName = outputDir @ ''/horizontal/'' @ Title aCut @ ''.mp4''
      in if videoDuration < of_int (Begin aCut) \<or> videoDuration < of_int (End aCut) then st
         else
           (let (clipped, st1) = perform env
                  (SubClip segmentVideoFile (Begin aCut) (End aCut) tempOutputFileName) st
            in if \<not> clipped then st1
               else
                 (let (file, st2) = readVTT env (subtitleFileName @ ''.pt.vtt'') st1
                  in case parseVTTFile file of
                       None \<Rightarrow>
                         performIgnored env (Rename tempOutputFileName outputFileName) st2
                     | Some subtitleEntries \<Rightarrow>
                         (let cutSubtitleFileName = outputDir @ ''/temp_'' @ Title aCut @ ''.srt'';
                              subtitleText = getSubtitlesForTimeRange subtitleEntries
                                               (Begin aCut) (End aCut);
                              (written, st3) = perform env
                                 (WriteFile cutSubtitleFileName subtitleText) st2
                          in if \<not> written then
                               performIgnored env
                                 (Rename tempOutputFileName outputFileName) st3
                             else finishCut env channel outputDir aCut tempOutputFileName
                                    outputFileName cutSubtitleFileName subtitleEntries st3))))"

definition cutLoop ::
  "'w env \<Rightarrow> Channel \<Rightarrow> string \<Rightarrow> string \<Rightarrow> string \<Rightarrow> rat \<Rightarrow> Cut list \<Rightarrow> 'w state \<Rightarrow> 'w state" where
  "cutLoop env channel outputDir subtitleFileName segmentVideoFile videoDuration cuts st =
     fold (processCut env channel outputDir subtitleFileName segmentVideoFile videoDuration)
       cuts st"

subsection \<open>The segment loop of \<^verbatim>\<open>DownloadVideo\<close>\<close>

definition processSegment ::
  "'w env \<Rightarrow> Channel \<Rightarrow> string \<Rightarrow> string \<Rightarrow> string \<Rightarrow> string \<Rightarrow> 'w state \<Rightarrow> 'w state" where
  "processSegment env channel outputDir subtitleFileName segmentVideoFile segmentSubtitleFile st =
     (let (cuts, st1) = GetCuts env segmentSubtitleFile (Topics channel) (Excerpts channel)
                          (StretchTime channel) st
      in if length cuts > 0 then
           (let (video, w) = loadDuration env segmentVideoFile (world st1);
                st2 = st1\<lparr>world := w\<rparr>
            in case video of
                 None \<Rightarrow> st2
               | Some videoDuration \<Rightarrow>
                   cutLoop env channel outputDir subtitleFileName segmentVideoFile
                     videoDuration cuts st2)
         else st1)"

datatype 'w outcome =
    Completed "'w state"
  | SplitFailed splitError "'w state"
      \<comment> \<open>"Error splitting video": the video is given up\<close>
  | IndexOutOfRange nat nat "'w state"
      \<comment> \<open>the run-time panic "index out of range [i] with length n"\<close>

text \<open>
  \<^verbatim>\<open>for i, segmentVideoFile := range videoSegments\<close>, which reads
  \<^verbatim>\<open>subtitleSegments[i]\<close> first. \<open>i\<close> is the index of the first segment of the list.
\<close>

fun segmentLoop ::
  "'w env \<Rightarrow> Channel \<Rightarrow> string \<Rightarrow> string \<Rightarrow> string list \<Rightarrow> nat \<Rightarrow> string list \<Rightarrow> 'w state
     \<Rightarrow> 'w outcome" where
  "segmentLoop env channel outputDir subtitleFileName subtitleSegs i [] st = Completed st"
| "segmentLoop env channel outputDir subtitleFileName subtitleSegs i (segmentVideoFile # rest) st =
     (if i < length subtitleSegs then
        segmentLoop env channel outputDir subtitleFileName subtitleSegs (Suc i) rest
          (processSegment env channel outputDir subtitleFileName segmentVideoFile
             (subtitleSegs ! i) st)
      else IndexOutOfRange i (length subtitleSegs) st)"

definition cleanUp ::
  "'w env \<Rightarrow> string \<Rightarrow> string \<Rightarrow> splitVars \<Rightarrow> 'w state \<Rightarrow> 'w state" where
  "cleanUp env videoFileName subtitleFileName vars st =
     (if length (videoSegments vars) > 1 then
        fold (\<lambda>file s. if file \<noteq> videoFileName \<and> file \<noteq> subtitleFileName
                        then performIgnored env (Remove file) s else s)
          (videoSegments vars @ subtitleSegments vars) st
      else st)"

text \<open>
  \<^verbatim>\<open>DownloadVideo\<close> for one video, from "Processing video segments..." on: the video and
  its subtitles have been downloaded to \<open>outputDir\<close>.
\<close>

definition processSegments :: "'w env \<Rightarrow> Channel \<Rightarrow> string \<Rightarrow> string \<Rightarrow> 'w state \<Rightarrow> 'w outcome" where
  "processSegments env channel outputDir videoID st =
     (let videoFileName = outputDir @ ''/'' @ videoID @ ''.mp4'';
          subtitleFileName = outputDir @ ''/'' @ videoID @ ''.srt'';
          (split, st1) = splitLongVideo env videoFileName subtitleFileName st
      in case split of
           Inl err \<Rightarrow> SplitFailed err st1
         | Inr vars \<Rightarrow>
             (case segmentLoop env channel outputDir subtitleFileName
                     (subtitleSegments vars) 0 (videoSegments vars) st1 of
                Completed st2 \<Rightarrow>
                  Completed (cleanUp env videoFileName subtitleFileName vars st2)
              | other \<Rightarrow> other))"

subsection \<open>Reading traces\<close>

text \<open>
  Auxiliary notions for the statements below: what a trace records, and what one
  attempt at the service leaves in the variables of the retry loops.
\<close>

fun requests :: "event list \<Rightarrow> request list" where
  "requests [] = []"
| "requests (Posted t r out # evs) = r # requests evs"
| "requests (_ # evs) = requests evs"

fun splitStarts :: "event list \<Rightarrow> int list" where
  \<comment> \<open>the start offsets of the segments cut, in the order of the commands\<close>
  "splitStarts [] = []"
| "splitStarts (Ran (SplitSegment v start d out) ok # evs) = start # splitStarts evs"
| "splitStarts (_ # evs) = splitStarts evs"

fun actionsOf :: "event list \<Rightarrow> action list" where
  \<comment> \<open>the actions run, in order, whatever their result\<close>
  "actionsOf [] = []"
| "actionsOf (Ran a ok # evs) = a # actionsOf evs"
| "actionsOf (_ # evs) = actionsOf evs"

definition isUpload :: "action \<Rightarrow> bool" where
  "isUpload a = (case a of Upload path title descr tags privacy \<Rightarrow> True | _ \<Rightarrow> False)"

definition isRender :: "action \<Rightarrow> bool" where
  \<comment> \<open>the commands that produce the cover image and the vertical and horizontal variants\<close>
  "isRender a =
     (case a of CoverImage base title out \<Rightarrow> True | Overlay base input out \<Rightarrow> True
      | _ \<Rightarrow> False)"

definition configuredVariants :: "Channel \<Rightarrow> string \<Rightarrow> Cut \<Rightarrow> string \<Rightarrow> action list" where
  \<comment> \<open>the render commands of the variants the channel configures, in the order of the source\<close>
  "configuredVariants channel outputDir aCut outputFileName =
     (if CoverVideoBase channel \<noteq> []
      then [CoverImage (CoverVideoBase channel) (Title aCut)
              (outputDir @ ''/covers/'' @ Title aCut @ ''.jpg'')]
      else [])
     @ (if VerticalVideoBase channel \<noteq> []
        then [Overlay (VerticalVideoBase channel) outputFileName
                (outputDir @ ''/vertical/'' @ Title aCut @ ''.mp4'')]
        else [])
     @ (if HorizontalVideoBase channel \<noteq> []
        then [Overlay (HorizontalVideoBase channel) outputFileName
                (outputDir @ ''/horizontal-yt/'' @ Title aCut @ ''.mp4'')]
        else [])"

definition statusAfter :: "int \<Rightarrow> httpOutcome \<Rightarrow> int" where
  \<comment> \<open>\<open>statusCode\<close> after an attempt: a transport error leaves it as it was\<close>
  "statusAfter statusCode out =
     (case out of TransportError \<Rightarrow> statusCode | ReadError code \<Rightarrow> code
      | Response code respBody \<Rightarrow> code)"

definition cutsChoices :: "'w env \<Rightarrow> httpOutcome \<Rightarrow> (string list \<Rightarrow> string list) option" where
  \<comment> \<open>what an attempt of \<open>GetCuts\<close> that breaks the loop does to \<open>apiResponse\<close>;
      \<open>None\<close>: a failed attempt\<close>
  "cutsChoices env out =
     (case out of
        Response code respBody \<Rightarrow>
          if code = 200 \<and> fst (decodeResponse env respBody)
          then Some (snd (decodeResponse env respBody)) else None
      | _ \<Rightarrow> None)"

definition choicesKept :: "'w env \<Rightarrow> httpOutcome \<Rightarrow> string list \<Rightarrow> string list" where
  \<comment> \<open>what a failed attempt of \<open>GetCuts\<close> does to \<open>apiResponse\<close>\<close>
  "choicesKept env out apiResponse =
     (case out of
        Response code respBody \<Rightarrow>
          if code = 200 then snd (decodeResponse env respBody) apiResponse else apiResponse
      | _ \<Rightarrow> apiResponse)"

definition cutsOfChoices :: "'w env \<Rightarrow> string list \<Rightarrow> Cut list" where
  \<comment> \<open>what \<open>GetCuts\<close> returns after the loop when the status code is 200\<close>
  "cutsOfChoices env choices =
     (case choices of
        [] \<Rightarrow> []
      | content # _ \<Rightarrow> (case decodeCuts env content of None \<Rightarrow> [] | Some cuts \<Rightarrow> cuts))"

definition metadataOf ::
  "'w env \<Rightarrow> httpOutcome \<Rightarrow> (VideoMetadata \<Rightarrow> VideoMetadata) option" where
  \<comment> \<open>what an attempt of \<open>GenerateMetadata\<close> that breaks the loop does to \<open>metadata\<close>;
      \<open>None\<close>: a failed attempt\<close>
  "metadataOf env out =
     (case out of
        Response code respBody \<Rightarrow>
          if code = 200 \<and> fst (decodeResponse env respBody)
          then (case snd (decodeResponse env respBody) [] of
                  [] \<Rightarrow> None
                | content # _ \<Rightarrow>
                    if fst (decodeMetadata env content)
                    then Some (snd (decodeMetadata env content)) else None)
          else None
      | _ \<Rightarrow> None)"

definition metadataKept :: "'w env \<Rightarrow> httpOutcome \<Rightarrow> VideoMetadata \<Rightarrow> VideoMetadata" where
  \<comment> \<open>what a failed attempt of \<open>GenerateMetadata\<close> does to \<open>metadata\<close>\<close>
  "metadataKept env out metadata =
     (case out of
        Response code respBody \<Rightarrow>
          if code = 200 \<and> fst (decodeResponse env respBody)
          then (case snd (decodeResponse env respBody) [] of
                  [] \<Rightarrow> metadata
                | content # _ \<Rightarrow> snd (decodeMetadata env content) metadata)
          else metadata
      | _ \<Rightarrow> metadata)"

text \<open>
  The bodies of the scripted service. \<open>''one choice''\<close> is a well-formed response with
  one choice, whose content is \<open>''{}''\<close>. \<open>''one choice, then a number''\<close> is a response
  whose list of choices has that choice and then a number where a choice is expected:
  \<^verbatim>\<open>json.Unmarshal\<close> decodes the choice, leaves the element of the number a choice with
  empty content, and returns an error for the type of the number. Every other body is
  no JSON: \<^verbatim>\<open>json.Unmarshal\<close> returns an error and has written nothing.
\<close>

definition scriptedBody :: "string \<Rightarrow> bool \<times> (string list \<Rightarrow> string list)" where
  "scriptedBody respBody =
     (if respBody = ''one choice'' then (True, \<lambda>apiResponse. [''{}''])
      else if respBody = ''one choice, then a number''
      then (False, \<lambda>apiResponse. [''{}'', []])
      else (False, \<lambda>apiResponse. apiResponse))"

text \<open>
  A scripted environment for the scenarios: the world counts the requests posted so
  far. The probe and the loader report \<open>duration\<close>, every caption file read has the
  content \<open>vtt\<close>, an action succeeds when \<open>succeeds\<close> says so, the \<open>n\<close>-th request is
  answered by \<open>answers n\<close>, a body is decoded by \<open>scriptedBody\<close>, and every content
  decodes to \<open>cuts\<close> and to no metadata.
\<close>

definition scripted ::
  "rat \<Rightarrow> string option \<Rightarrow> (action \<Rightarrow> bool) \<Rightarrow> (nat \<Rightarrow> httpOutcome) \<Rightarrow> Cut list \<Rightarrow> nat env" where
  "scripted duration vtt succeeds answers cuts =
     \<lparr>run = (\<lambda>a w. (succeeds a, w)),
      readFile = (\<lambda>path w. (vtt, w)),
      post = (\<lambda>req w. (answers w, Suc w)),
      ffprobe = (\<lambda>file w. (Probed duration, w)),
      loadDuration = (\<lambda>file w. (Some duration, w)),
      decodeResponse = scriptedBody,
      decodeCuts = (\<lambda>content. Some cuts),
      decodeMetadata = (\<lambda>content. (False, \<lambda>metadata. metadata))\<rparr>"

definition start :: "nat state" where
  "start = \<lparr>world = 0, trace = []\<rparr>"

definition plainChannel :: Channel where
  "plainChannel =
     \<lparr>Topics = ''go'', Excerpts = 1, StretchTime = 1, CoverVideoBase = ''cover.mp4'',
      VerticalVideoBase = ''vertical.mp4'', HorizontalVideoBase = ''horizontal.mp4'',
      UploadToYouTube = True\<rparr>"

definition flaky :: "nat \<Rightarrow> httpOutcome" where
  \<comment> \<open>a service that fails twice, then answers\<close>
  "flaky n =
     (if n = 0 then TransportError
      else if n = 1 then Response 500 ''Internal Server Error''
      else Response 200 ''one choice'')"

definition stuck :: "nat \<Rightarrow> httpOutcome" where
  \<comment> \<open>a service that answers every request with status 200 and a body that
      \<^verbatim>\<open>json.Unmarshal\<close> rejects after the first choice\<close>
  "stuck n = Response 200 ''one choice, then a number''"

definition allButPart2 :: "action \<Rightarrow> bool" where
  \<comment> \<open>every action succeeds but the writing of the caption file of the second segment\<close>
  "allButPart2 a =
     (case a of WriteFile name content \<Rightarrow> name \<noteq> ''out/v.part2.srt'' | _ \<Rightarrow> True)"

section \<open>Properties of the formatter\<close>

subsection \<open>The document is the blocks, written in order\<close>

lemma subtitleLoop_blocks:
  "subtitleLoop a b i es = concat (map render (blocksFrom a b i es))"
  by (induction es arbitrary: i) (simp_all add: render_def)

lemma blocksFrom_fields:
  "map (\<lambda>blk. (startSec blk, endSec blk, body blk)) (blocksFrom a b i es) =
   map (\<lambda>e. (adjustedStart e a, adjustedEnd e a b, cleanSubtitleText (Text e)))
     (filter (\<lambda>e. inRange e a b) es)"
  by (induction es arbitrary: i) simp_all


lemma blocksFrom_set:
  "blk \<in> set (blocksFrom a b i es) \<Longrightarrow>
   \<exists>e \<in> set es. inRange e a b \<and> startSec blk = adjustedStart e a
     \<and> endSec blk = adjustedEnd e a b \<and> body blk = cleanSubtitleText (Text e)"
  by (induction es arbitrary: i) (auto split: if_splits)

subsection \<open>Whole seconds\<close>

lemma go_int_nonneg: "0 \<le> x \<Longrightarrow> go_int x = \<lfloor>x\<rfloor>"
  by (simp add: go_int_def)

lemma go_int_divide: "go_int (of_int k / 1000000000) = go_quo k 1000000000"
proof -
  have f: "\<lfloor>(of_int m :: rat) / 1000000000\<rfloor> = m div 1000000000" for m :: int
    using floor_divide_of_int_eq[of m 1000000000, where ?'a = rat] by simp
  show ?thesis
  proof (cases "k < 0")
    case True
    then have "(of_int k :: rat) / 1000000000 < 0" by (simp add: divide_neg_pos)
    moreover have "- ((of_int k :: rat) / 1000000000) = of_int (- k) / 1000000000" by simp
    ultimately have "go_int (of_int k / 1000000000) = - ((- k) div 1000000000)"
      unfolding go_int_def by (simp only: f if_True)
    then show ?thesis using True by (simp add: go_quo_def)
  next
    case False
    then have "\<not> (of_int k :: rat) / 1000000000 < 0" by (simp add: not_less)
    then have "go_int (of_int k / 1000000000) = k div 1000000000"
      unfolding go_int_def by (simp only: f if_False)
    then show ?thesis using False by (cases "k = 0") (simp_all add: go_quo_def)
  qed
qed

lemma adjustedStart_int:
  "adjustedStart e a = go_quo (max 0 (StartTime e - a * 1000000000)) 1000000000"
proof -
  have "max 0 (Seconds (StartTime e) - of_int a)
        = (of_int (max 0 (StartTime e - a * 1000000000)) :: rat) / 1000000000"
    by (simp add: Seconds_def max_def field_simps)
  then show ?thesis by (simp only: adjustedStart_def go_int_divide)
qed

lemma adjustedEnd_int:
  "adjustedEnd e a b
   = go_quo (min (wrap64 (b - a) * 1000000000) (EndTime e - a * 1000000000)) 1000000000"
proof -
  have "min (of_int (wrap64 (b - a))) (Seconds (EndTime e) - of_int a)
        = (of_int (min (wrap64 (b - a) * 1000000000) (EndTime e - a * 1000000000)) :: rat)
          / 1000000000"
    by (simp add: Seconds_def min_def field_simps)
  then show ?thesis by (simp only: adjustedEnd_def go_int_divide)
qed

lemma formatSRTTimestamp_suffix: "suffix '',000'' (formatSRTTimestamp n)"
  by (simp add: formatSRTTimestamp_def Let_def suffix_def)

subsection \<open>Bounds of a block\<close>

lemma wrap64_id:
  "- 9223372036854775808 \<le> x \<Longrightarrow> x < 9223372036854775808 \<Longrightarrow> wrap64 x = x"
  by (simp add: wrap64_def)

lemma secondsDuration_exact: "fitsSeconds n \<Longrightarrow> secondsDuration n = n * 1000000000"
  by (simp add: secondsDuration_def Second_def fitsSeconds_def wrap64_id)

lemma block_bounds:
  assumes "a \<le> b" "fitsSeconds a" "fitsSeconds b"
    and "StartTime e \<le> EndTime e" and "inRange e a b"
  shows "0 \<le> adjustedStart e a \<and> adjustedStart e a \<le> adjustedEnd e a b
         \<and> adjustedEnd e a b \<le> b - a"
proof -
  have w: "wrap64 (b - a) = b - a"
    using assms(1-3) by (intro wrap64_id) (auto simp: fitsSeconds_def)
  have s: "StartTime e \<le> b * 1000000000" and t: "a * 1000000000 \<le> EndTime e"
    using assms(5) by (simp_all add: inRange_def secondsDuration_exact assms)
  have t': "(of_int a :: rat) \<le> Seconds (EndTime e)"
  proof -
    have "(of_int (a * 1000000000) :: rat) \<le> of_int (EndTime e)"
      using t by (simp only: of_int_le_iff)
    then show ?thesis by (simp add: Seconds_def field_simps)
  qed
  have s': "Seconds (StartTime e) \<le> (of_int b :: rat)"
  proof -
    have "(of_int (StartTime e) :: rat) \<le> of_int (b * 1000000000)"
      using s by (simp only: of_int_le_iff)
    then show ?thesis by (simp add: Seconds_def field_simps)
  qed
  have st: "Seconds (StartTime e) \<le> Seconds (EndTime e)"
    using assms(4) by (simp add: Seconds_def divide_right_mono)
  let ?x = "max 0 (Seconds (StartTime e) - of_int a)"
  let ?y = "min (of_int (b - a)) (Seconds (EndTime e) - of_int a)"
  have x0: "0 \<le> ?x" by simp
  have y0: "0 \<le> ?y" using assms(1) t' by simp
  have xy: "?x \<le> ?y" using assms(1) t' s' st by simp
  have yb: "?y \<le> of_int (b - a)" by simp
  have 1: "adjustedStart e a = \<lfloor>?x\<rfloor>"
    unfolding adjustedStart_def by (rule go_int_nonneg[OF x0])
  have 2: "adjustedEnd e a b = \<lfloor>?y\<rfloor>"
    unfolding adjustedEnd_def w by (rule go_int_nonneg[OF y0])
  have "0 \<le> \<lfloor>?x\<rfloor>" using x0 by simp
  moreover have "\<lfloor>?x\<rfloor> \<le> \<lfloor>?y\<rfloor>" using xy by (rule floor_mono)
  moreover have "\<lfloor>?y\<rfloor> \<le> b - a" using floor_mono[OF yb] by simp
  ultimately show ?thesis by (simp add: 1 2)
qed

text \<open>
  C2 (as amended). For a window \<open>a \<le> b\<close> whose bounds are whole seconds that fit a
  64-bit duration, and entries that do not end before they start, the document
  \<open>getSubtitlesForTimeRange E a b\<close> is the rendering of its blocks; the blocks are the
  entries that pass the inclusive test \<open>StartTime \<le> b\<close> and \<open>EndTime \<ge> a\<close> (in
  nanoseconds), in order, each with its start and end clamped and shifted as the source
  computes them; and every block satisfies \<open>0 \<le> start \<le> end \<le> b - a\<close>.
\<close>

theorem getSubtitlesForTimeRange_window:
  assumes "a \<le> b" and "fitsSeconds a" and "fitsSeconds b"
    and "\<forall>e \<in> set E. StartTime e \<le> EndTime e"
  shows "getSubtitlesForTimeRange E a b = concat (map render (blocks E a b))
    \<and> map (\<lambda>blk. (startSec blk, endSec blk, body blk)) (blocks E a b)
        = map (\<lambda>e. (adjustedStart e a, adjustedEnd e a b, cleanSubtitleText (Text e)))
            (filter (\<lambda>e. StartTime e \<le> b * 1000000000 \<and> a * 1000000000 \<le> EndTime e) E)
    \<and> (\<forall>blk \<in> set (blocks E a b).
          0 \<le> startSec blk \<and> startSec blk \<le> endSec blk \<and> endSec blk \<le> b - a)"
proof (intro conjI ballI)
  show "getSubtitlesForTimeRange E a b = concat (map render (blocks E a b))"
    by (simp add: getSubtitlesForTimeRange_def blocks_def subtitleLoop_blocks)
next
  have "inRange e a b = (StartTime e \<le> b * 1000000000 \<and> a * 1000000000 \<le> EndTime e)" for e
    by (simp add: inRange_def secondsDuration_exact assms(2,3))
  then show "map (\<lambda>blk. (startSec blk, endSec blk, body blk)) (blocks E a b)
        = map (\<lambda>e. (adjustedStart e a, adjustedEnd e a b, cleanSubtitleText (Text e)))
            (filter (\<lambda>e. StartTime e \<le> b * 1000000000 \<and> a * 1000000000 \<le> EndTime e) E)"
    by (simp add: blocks_def blocksFrom_fields)
next
  fix blk
  assume "blk \<in> set (blocks E a b)"
  then obtain e where e: "e \<in> set E" "inRange e a b"
    and eq: "startSec blk = adjustedStart e a" "endSec blk = adjustedEnd e a b"
    unfolding blocks_def by (blast dest: blocksFrom_set)
  from e(1) assms(4) have "StartTime e \<le> EndTime e" by blast
  from block_bounds[OF assms(1-3) this e(2)]
  show "0 \<le> startSec blk" "startSec blk \<le> endSec blk" "endSec blk \<le> b - a"
    by (simp_all add: eq)
qed

theorem getSubtitlesForTimeRange_window_witness:
  "getSubtitlesForTimeRange
     [\<lparr>Index = 1, StartTime = 10000000000, EndTime = 20000000000, Text = ''A''\<rparr>,
      \<lparr>Index = 2, StartTime = 25000000000, EndTime = 35000000000, Text = ''B''\<rparr>] 15 30
   = concat (map render
       [\<lparr>number = 1, startSec = 0, endSec = 5, body = ''A''\<rparr>,
        \<lparr>number = 2, startSec = 10, endSec = 15, body = ''B''\<rparr>])
   \<and> list_all (\<lambda>blk. 0 \<le> startSec blk \<and> startSec blk \<le> endSec blk \<and> endSec blk \<le> 30 - 15)
       (blocks
         [\<lparr>Index = 1, StartTime = 10000000000, EndTime = 20000000000, Text = ''A''\<rparr>,
          \<lparr>Index = 2, StartTime = 25000000000, EndTime = 35000000000, Text = ''B''\<rparr>] 15 30)"
proof -
  let ?E = "[\<lparr>Index = 1, StartTime = 10000000000, EndTime = 20000000000, Text = ''A''\<rparr>,
      \<lparr>Index = 2, StartTime = 25000000000, EndTime = 35000000000, Text = ''B''\<rparr>]"
  have h: "\<forall>e \<in> set ?E. StartTime e \<le> EndTime e" by simp
  have f: "fitsSeconds 15" "fitsSeconds 30" by (simp_all add: fitsSeconds_def)
  have v: "blocks ?E 15 30 = [\<lparr>number = 1, startSec = 0, endSec = 5, body = ''A''\<rparr>,
        \<lparr>number = 2, startSec = 10, endSec = 15, body = ''B''\<rparr>]"
    by code_simp
  have le: "(15::int) \<le> 30" by simp
  from getSubtitlesForTimeRange_window[OF le f h] show ?thesis
    by (simp only: v list_all_iff) simp
qed

theorem getSubtitlesForTimeRange_window_counterexample:
  "getSubtitlesForTimeRange
     [\<lparr>Index = 1, StartTime = 10000000000, EndTime = 5000000000, Text = ''A''\<rparr>] 0 20
   = ''1\<newline>00:00:10,000 --> 00:00:05,000\<newline>A\<newline>\<newline>''
   \<and> \<not> (\<forall>blk \<in> set (blocks
         [\<lparr>Index = 1, StartTime = 10000000000, EndTime = 5000000000, Text = ''A''\<rparr>] 0 20).
        0 \<le> startSec blk \<and> startSec blk \<le> endSec blk \<and> endSec blk \<le> 20 - 0)
   \<and> parseContent ''00:00:10.000 --> 00:00:1x.000\<newline>A''
     = [\<lparr>Index = 1, StartTime = 10000000000, EndTime = 0, Text = ''A''\<rparr>]
   \<and> getSubtitlesForTimeRange (parseContent ''00:00:10.000 --> 00:00:1x.000\<newline>A'') 0 20
     = ''1\<newline>00:00:10,000 --> 00:00:00,000\<newline>A\<newline>\<newline>''
   \<and> blocks [\<lparr>Index = 1, StartTime = 0, EndTime = 0, Text = ''A''\<rparr>]
       9223372037 18446744074
     = [\<lparr>number = 1, startSec = 0, endSec = - 9223372037, body = ''A''\<rparr>]"
  by code_simp

text \<open>
  C10. Every timestamp \<open>getSubtitlesForTimeRange\<close> writes is a whole second: the
  document is the rendering of its blocks, the time line of a block is
  \<open>formatSRTTimestamp\<close> of two integers, these integers are the clamped and shifted
  times with the part below a second cut off (a quotient by \<open>10^9\<close> nanoseconds that
  truncates), and \<open>formatSRTTimestamp\<close> ends every timestamp with \<open>,000\<close>.
\<close>

theorem getSubtitlesForTimeRange_whole_seconds:
  "getSubtitlesForTimeRange E a b = concat (map render (blocks E a b))
   \<and> render blk = fmt_d (number blk) @ newline @ formatSRTTimestamp (startSec blk) @ '' --> ''
        @ formatSRTTimestamp (endSec blk) @ newline @ body blk @ newline @ newline
   \<and> suffix '',000'' (formatSRTTimestamp n)
   \<and> adjustedStart e a = go_quo (max 0 (StartTime e - a * 1000000000)) 1000000000
   \<and> adjustedEnd e a b
       = go_quo (min (wrap64 (b - a) * 1000000000) (EndTime e - a * 1000000000)) 1000000000"
proof (intro conjI)
  show "getSubtitlesForTimeRange E a b = concat (map render (blocks E a b))"
    by (simp add: getSubtitlesForTimeRange_def blocks_def subtitleLoop_blocks)
  show "render blk = fmt_d (number blk) @ newline @ formatSRTTimestamp (startSec blk) @ '' --> ''
        @ formatSRTTimestamp (endSec blk) @ newline @ body blk @ newline @ newline"
    by (simp add: render_def writeBlock_def)
  show "suffix '',000'' (formatSRTTimestamp n)"
    by (rule formatSRTTimestamp_suffix)
  show "adjustedStart e a = go_quo (max 0 (StartTime e - a * 1000000000)) 1000000000"
    by (rule adjustedStart_int)
  show "adjustedEnd e a b
       = go_quo (min (wrap64 (b - a) * 1000000000) (EndTime e - a * 1000000000)) 1000000000"
    by (rule adjustedEnd_int)
qed

theorem getSubtitlesForTimeRange_whole_seconds_witness:
  "getSubtitlesForTimeRange
     [\<lparr>Index = 1, StartTime = 1500000000, EndTime = 3750000000, Text = ''A''\<rparr>] 0 10
   = ''1\<newline>00:00:01,000 --> 00:00:03,000\<newline>A\<newline>\<newline>''
   \<and> suffix '',000'' (formatSRTTimestamp 3)
   \<and> adjustedStart \<lparr>Index = 1, StartTime = 1500000000, EndTime = 3750000000, Text = ''A''\<rparr> 0 = 1
   \<and> adjustedEnd \<lparr>Index = 1, StartTime = 1500000000, EndTime = 3750000000, Text = ''A''\<rparr> 0 10 = 3"
proof -
  let ?e = "\<lparr>Index = 1, StartTime = 1500000000, EndTime = 3750000000, Text = ''A''\<rparr>"
  have v: "blocks [?e] 0 10 = [\<lparr>number = 1, startSec = 1, endSec = 3, body = ''A''\<rparr>]"
    by code_simp
  have r: "render \<lparr>number = 1, startSec = 1, endSec = 3, body = ''A''\<rparr>
           = ''1\<newline>00:00:01,000 --> 00:00:03,000\<newline>A\<newline>\<newline>''"
    by code_simp
  have q: "go_quo 1500000000 1000000000 = 1"
    "go_quo (min (wrap64 10 * 1000000000) 3750000000) 1000000000 = 3"
    by code_simp+
  from getSubtitlesForTimeRange_whole_seconds
         [of "[?e]" 0 10 "\<lparr>number = 1, startSec = 1, endSec = 3, body = ''A''\<rparr>" 3 ?e]
  show ?thesis by (simp add: v r q)
qed

section \<open>Properties of the parser\<close>

subsection \<open>Timestamps\<close>


lemma stringsIndex_from_absent: "c \<notin> set t \<Longrightarrow> stringsIndex_from i t [c] = - 1"
  by (induction t arbitrary: i) auto

lemma stringsIndex_from_first:
  "c \<notin> set t \<Longrightarrow> stringsIndex_from i (t @ c # rest) [c] = int i + int (length t)"
  by (induction t arbitrary: i) auto

lemma cutAtSpace_none: "CHR '' '' \<notin> set t \<Longrightarrow> cutAtSpace t = t"
  by (simp add: cutAtSpace_def stringsIndex_def stringsIndex_from_absent)

lemma cutAtSpace_annotation: "CHR '' '' \<notin> set t \<Longrightarrow> cutAtSpace (t @ CHR '' '' # ann) = t"
  by (simp add: cutAtSpace_def stringsIndex_def stringsIndex_from_first)

lemma parseTimestamp_few_parts:
  "length (Split (ReplaceAll (cutAtSpace ts) '','' ''.'') '':'') < 3 \<Longrightarrow> parseTimestamp ts = 0"
  by (auto simp: parseTimestamp_def Let_def split: list.splits)

lemma parseTimestamp_sum:
  assumes "Split (ReplaceAll (cutAtSpace ts) '','' ''.'') '':'' = p0 # p1 # p2 # ps"
    and "Split p2 ''.'' = sp0 # rest"
  shows "parseTimestamp ts =
    wrap64 (wrap64 (wrap64 (hoursOf p0 + minutesOf p1) + secondsOf sp0)
            + (case rest of [] \<Rightarrow> 0 | ms # _ \<Rightarrow> millisecondsOf ms))"
  using assms by (simp add: parseTimestamp_def Let_def)

lemma Split_go_nonempty: "Split_go sep cur s \<noteq> []"
  by (induction sep cur s rule: Split_go.induct) (subst Split_go.simps, simp)




subsection \<open>The round trip\<close>






lemma ParseDuration_nonnumeric:
  assumes "p \<noteq> []" "\<not> numberChar (hd p)" "hd p \<noteq> CHR ''-''" "hd p \<noteq> CHR ''+''"
  shows "ParseDuration (p @ u) = None"
proof -
  obtain c cs where p: "p = c # cs" using assms(1) by (cases p) auto
  have c: "\<not> numberChar c" "c \<noteq> CHR ''-''" "c \<noteq> CHR ''+''"
    using assms(2-4) by (simp_all add: p)
  have z: "c \<noteq> CHR ''0''"
    using c(1) by (auto simp: numberChar_def isDigit_def)
  have t: "durationTerm (c # cs @ u) = None"
    using c(1) by (simp add: durationTerm_def)
  have "durationLoop 0 (c # cs @ u) = None"
    by (subst durationLoop.simps) (simp add: t)
  then show ?thesis
    using c z by (simp add: ParseDuration_def p)
qed

lemma padMillis_hd: "p \<noteq> [] \<Longrightarrow> padMillis p \<noteq> [] \<and> hd (padMillis p) = hd p"
  by (cases p) (auto simp: padMillis_def Let_def)

text \<open>
  C9 (as amended). \<open>parseTimestamp\<close> and the document parser are total functions, and a
  document that could be read always parses: no timestamp makes \<open>parseVTTFile\<close> fail.
  A timestamp with fewer than three parts between colons is the zero duration. With
  three parts or more the result is the sum of the four fields, and a field that
  \<^verbatim>\<open>time.ParseDuration\<close> rejects once its unit is appended contributes zero; this is so
  for every non-empty field that starts with neither a digit, a point nor a sign. What
  follows the first space character is ignored.
\<close>

theorem parseTimestamp_lenient:
  "parseVTTFile (Some content) = Some (parseContent content)
   \<and> (length (Split (ReplaceAll (cutAtSpace ts) '','' ''.'') '':'') < 3
        \<longrightarrow> parseTimestamp ts = 0)
   \<and> (Split (ReplaceAll (cutAtSpace ts) '','' ''.'') '':'' = p0 # p1 # p2 # ps
        \<and> Split p2 ''.'' = sp0 # rest
        \<longrightarrow> parseTimestamp ts =
              wrap64 (wrap64 (wrap64 (hoursOf p0 + minutesOf p1) + secondsOf sp0)
                      + (case rest of [] \<Rightarrow> 0 | ms # _ \<Rightarrow> millisecondsOf ms)))
   \<and> (ParseDuration (p @ ''h'') = None \<longrightarrow> hoursOf p = 0)
   \<and> (ParseDuration (p @ ''m'') = None \<longrightarrow> minutesOf p = 0)
   \<and> (ParseDuration (p @ ''s'') = None \<longrightarrow> secondsOf p = 0)
   \<and> (ParseDuration (padMillis p @ ''ms'') = None \<longrightarrow> millisecondsOf p = 0)
   \<and> (q \<noteq> [] \<and> \<not> numberChar (hd q) \<and> hd q \<noteq> CHR ''-'' \<and> hd q \<noteq> CHR ''+''
        \<longrightarrow> hoursOf q = 0 \<and> minutesOf q = 0 \<and> secondsOf q = 0 \<and> millisecondsOf q = 0)
   \<and> (CHR '' '' \<notin> set t \<longrightarrow> parseTimestamp (t @ '' '' @ ann) = parseTimestamp t)"
proof (intro conjI impI)
  show "parseVTTFile (Some content) = Some (parseContent content)"
    by (simp add: parseVTTFile_def)
next
  assume "length (Split (ReplaceAll (cutAtSpace ts) '','' ''.'') '':'') < 3"
  then show "parseTimestamp ts = 0" by (rule parseTimestamp_few_parts)
next
  assume "Split (ReplaceAll (cutAtSpace ts) '','' ''.'') '':'' = p0 # p1 # p2 # ps
        \<and> Split p2 ''.'' = sp0 # rest"
  then show "parseTimestamp ts =
              wrap64 (wrap64 (wrap64 (hoursOf p0 + minutesOf p1) + secondsOf sp0)
                      + (case rest of [] \<Rightarrow> 0 | ms # _ \<Rightarrow> millisecondsOf ms))"
    by (simp add: parseTimestamp_sum)
next
  assume "ParseDuration (p @ ''h'') = None"
  then show "hoursOf p = 0" by (simp add: hoursOf_def orZero_def)
next
  assume "ParseDuration (p @ ''m'') = None"
  then show "minutesOf p = 0" by (simp add: minutesOf_def orZero_def)
next
  assume "ParseDuration (p @ ''s'') = None"
  then show "secondsOf p = 0" by (simp add: secondsOf_def orZero_def)
next
  assume "ParseDuration (padMillis p @ ''ms'') = None"
  then show "millisecondsOf p = 0" by (simp add: millisecondsOf_def orZero_def)
next
  assume q: "q \<noteq> [] \<and> \<not> numberChar (hd q) \<and> hd q \<noteq> CHR ''-'' \<and> hd q \<noteq> CHR ''+''"
  then have "ParseDuration (q @ u) = None" for u
    by (intro ParseDuration_nonnumeric) simp_all
  moreover have "ParseDuration (padMillis q @ ''ms'') = None"
    using q padMillis_hd[of q] by (intro ParseDuration_nonnumeric) simp_all
  ultimately show "hoursOf q = 0" "minutesOf q = 0" "secondsOf q = 0" "millisecondsOf q = 0"
    by (simp_all add: hoursOf_def minutesOf_def secondsOf_def millisecondsOf_def orZero_def)
next
  assume "CHR '' '' \<notin> set t"
  then have "cutAtSpace (t @ '' '' @ ann) = cutAtSpace t"
    by (simp add: cutAtSpace_annotation cutAtSpace_none)
  then show "parseTimestamp (t @ '' '' @ ann) = parseTimestamp t"
    by (simp add: parseTimestamp_def)
qed

theorem parseTimestamp_lenient_witness:
  "parseTimestamp ''00:01'' = 0
   \<and> parseTimestamp ''xx:01:05.2y'' = 65000000000
   \<and> hoursOf ''xx'' = 0 \<and> minutesOf ''1x'' = 0 \<and> secondsOf [] = 0 \<and> millisecondsOf ''2y'' = 0
   \<and> parseTimestamp (''00:00:01.500'' @ '' '' @ ''align:start position:0%'') = 1500000000"
proof -
  have a: "length (Split (ReplaceAll (cutAtSpace ''00:01'') '','' ''.'') '':'') < 3"
    by code_simp
  have b: "Split (ReplaceAll (cutAtSpace ''xx:01:05.2y'') '','' ''.'') '':''
             = ''xx'' # ''01'' # ''05.2y'' # []
           \<and> Split ''05.2y'' ''.'' = ''05'' # [''2y'']"
    by code_simp
  have c: "ParseDuration (''xx'' @ ''h'') = None" "ParseDuration (''1x'' @ ''m'') = None"
    "ParseDuration ([] @ ''s'') = None" "ParseDuration (padMillis ''2y'' @ ''ms'') = None"
    by code_simp+
  have d: "CHR '' '' \<notin> set ''00:00:01.500''" by simp
  have v: "minutesOf ''01'' = 60000000000" "secondsOf ''05'' = 5000000000"
    "parseTimestamp ''00:00:01.500'' = 1500000000"
    "wrap64 (wrap64 (wrap64 60000000000 + 5000000000)) = 65000000000"
    by code_simp+
  have h: "hoursOf ''xx'' = 0"
    using parseTimestamp_lenient[of _ _ _ _ _ _ _ _ "''xx''"] c(1) by blast
  have m: "minutesOf ''1x'' = 0"
    using parseTimestamp_lenient[of _ _ _ _ _ _ _ _ "''1x''"] c(2) by blast
  have s: "secondsOf [] = 0"
    using parseTimestamp_lenient[of _ _ _ _ _ _ _ _ "[]"] c(3) by blast
  have ms: "millisecondsOf ''2y'' = 0"
    using parseTimestamp_lenient[of _ _ _ _ _ _ _ _ "''2y''"] c(4) by blast
  have few: "parseTimestamp ''00:01'' = 0"
    using parseTimestamp_lenient[of _ "''00:01''"] a by blast
  have "parseTimestamp ''xx:01:05.2y'' =
          wrap64 (wrap64 (wrap64 (hoursOf ''xx'' + minutesOf ''01'') + secondsOf ''05'')
                  + (case [''2y''] of [] \<Rightarrow> 0 | ms # _ \<Rightarrow> millisecondsOf ms))"
    using parseTimestamp_lenient[of _ "''xx:01:05.2y''" "''xx''" "''01''" "''05.2y''" "[]"
            "''05''" "[''2y'']"] b by blast
  then have sum: "parseTimestamp ''xx:01:05.2y'' = 65000000000"
    by (simp add: h ms v)
  have ann: "parseTimestamp (''00:00:01.500'' @ '' '' @ ''align:start position:0%'')
             = parseTimestamp ''00:00:01.500''"
    using parseTimestamp_lenient[of _ _ _ _ _ _ _ _ _ _ "''00:00:01.500''"
            "''align:start position:0%''"] d by blast
  show ?thesis using few sum h m s ms ann by (simp add: v)
qed

theorem parseTimestamp_lenient_counterexample:
  "parseTimestamp (''00:00:05'' @ [CHR 0x09] @ ''x'') = 0
   \<and> parseTimestamp ''00:00:05'' = 5000000000
   \<and> parseTimestamp ''00:00:1h30'' = 3630000000000"
  by code_simp




section \<open>Properties of the cut loop\<close>

lemma requests_append: "requests (xs @ ys) = requests xs @ requests ys"
  by (induction xs rule: requests.induct) simp_all

lemma transcriptLoop_filter:
  "transcriptLoop b e acc es =
     acc @ concat (map (\<lambda>x. '' '' @ cleanSubtitleText (Text x))
             (filter (\<lambda>x. secondsDuration b \<le> StartTime x \<and> EndTime x \<le> secondsDuration e) es))"
  by (induction es arbitrary: acc) simp_all

lemma requests_perform: "requests (trace (snd (perform env a st))) = requests (trace st)"
  by (simp add: perform_def requests_append split: prod.splits)

lemma requests_performIgnored: "requests (trace (performIgnored env a st)) = requests (trace st)"
  by (simp add: performIgnored_def requests_perform)

lemma requests_perform_eq:
  "perform env a st = (ok, st') \<Longrightarrow> requests (trace st') = requests (trace st)"
  using requests_perform[of env a st] by simp

lemma requests_ensureDir: "requests (trace (ensureDir env d st)) = requests (trace st)"
  by (auto simp: ensureDir_def requests_performIgnored split: prod.splits
           dest: requests_perform_eq)

lemma requests_coverStage: "requests (trace (coverStage env ch d c st)) = requests (trace st)"
  by (simp add: coverStage_def Let_def requests_performIgnored requests_ensureDir)

lemma requests_verticalStage:
  "requests (trace (verticalStage env ch d c out st)) = requests (trace st)"
  by (simp add: verticalStage_def Let_def requests_performIgnored requests_ensureDir)

lemma requests_horizontalStage:
  "requests (trace (horizontalStage env ch d c out st)) = requests (trace st)"
  by (simp add: horizontalStage_def Let_def requests_performIgnored requests_ensureDir)

lemma requests_uploadStage: "requests (trace (uploadStage env ch d c m st)) = requests (trace st)"
  by (auto simp: uploadStage_def Let_def requests_performIgnored
           split: option.splits prod.splits dest: requests_perform_eq)

lemma requests_sleep: "requests (trace (sleep n st)) = requests (trace st)"
  by (simp add: sleep_def requests_append)

lemma requests_send:
  "send env t r st = (out, st') \<Longrightarrow> requests (trace st') = requests (trace st) @ [r]"
  by (auto simp: send_def requests_append split: prod.splits)

lemma metadataAttempts_done:
  "\<not> attempt < maxRetries \<Longrightarrow> metadataAttempts env req attempt sc m st = ((sc, m), st)"
  by (subst metadataAttempts.simps) simp

lemma metadataAttempts_step:
  assumes "attempt < maxRetries" and "n = attempt + 1"
    and "send env 60 req (if attempt > 0 then sleep (backoff attempt) st else st) = (out, st2)"
  shows "metadataAttempts env req attempt sc m st =
    (case metadataOf env out of
       Some fill \<Rightarrow> ((200, fill m), st2)
     | None \<Rightarrow> metadataAttempts env req n (statusAfter sc out) (metadataKept env out m) st2)"
  using assms
  by (subst metadataAttempts.simps)
     (auto simp: metadataOf_def metadataKept_def statusAfter_def Let_def
           split: httpOutcome.splits option.splits list.splits prod.splits)

lemma requests_metadataAttempts:
  "metadataAttempts env r attempt sc m st = (res, st') \<Longrightarrow>
   set (requests (trace st')) \<subseteq> set (requests (trace st)) \<union> {r}"
proof (induction "nat (maxRetries - attempt)" arbitrary: attempt sc m st)
  case 0
  then have "\<not> attempt < maxRetries" by simp
  with "0.prems" show ?case by (auto simp: metadataAttempts_done)
next
  case (Suc k)
  then have lt: "attempt < maxRetries" by simp
  let ?st1 = "if attempt > 0 then sleep (backoff attempt) st else st"
  obtain out st2 where s: "send env 60 r ?st1 = (out, st2)" by (cases "send env 60 r ?st1")
  have r2: "requests (trace st2) = requests (trace st) @ [r]"
    using requests_send[OF s] by (simp add: requests_sleep)
  show ?case
  proof (cases "metadataOf env out")
    case (Some found)
    then have "st' = st2"
      using Suc.prems metadataAttempts_step[OF lt refl s] by simp
    then show ?thesis using r2 by auto
  next
    case None
    then have rec: "metadataAttempts env r (attempt + 1) (statusAfter sc out)
                      (metadataKept env out m) st2 = (res, st')"
      using Suc.prems metadataAttempts_step[OF lt refl s] by simp
    have "k = nat (maxRetries - (attempt + 1))" using Suc.hyps(2) by simp
    from Suc.hyps(1)[OF this rec] show ?thesis using r2 by auto
  qed
qed

lemma requests_GenerateMetadata:
  "GenerateMetadata env title content topics st = (res, st') \<Longrightarrow>
   set (requests (trace st')) \<subseteq> set (requests (trace st)) \<union> {MetadataRequest title content topics}"
  by (auto simp: GenerateMetadata_def Let_def split: prod.splits if_splits
           dest!: requests_metadataAttempts)

lemma requests_finishCut:
  "set (requests (trace (finishCut env ch d c tmp out srt es st)))
   \<subseteq> set (requests (trace st)) \<union> {MetadataRequest (Title c) (cutTranscript es c) (Topics ch)}"
proof -
  obtain meta err st1 where g:
    "GenerateMetadata env (Title c) (cutTranscript es c) (Topics ch) st = ((meta, err), st1)"
    by (metis surj_pair)
  define st2 where "st2 = (case err of
                   None \<Rightarrow> (case meta of None \<Rightarrow> st1
                     | Some m \<Rightarrow> performIgnored env
                         (WriteMetadata (d @ ''/horizontal/'' @ Title c @ ''.json'') m) st1)
                 | Some e \<Rightarrow> st1)"
  obtain burned st3 where b: "perform env (BurnSubtitles tmp srt out) st2 = (burned, st3)"
    by (metis surj_pair)
  have 2: "requests (trace st2) = requests (trace st1)"
    by (simp add: st2_def requests_performIgnored split: option.splits)
  have 3: "requests (trace st3) = requests (trace st1)"
    using requests_perform_eq[OF b] 2 by simp
  have "requests (trace (finishCut env ch d c tmp out srt es st)) = requests (trace st1)"
    using b unfolding st2_def
    by (simp add: finishCut_def Let_def g requests_uploadStage requests_horizontalStage
          requests_verticalStage requests_coverStage requests_performIgnored 3)
  then show ?thesis using requests_GenerateMetadata[OF g] by simp
qed

lemma processCut_skip:
  "videoDuration < of_int (Begin c) \<or> videoDuration < of_int (End c) \<Longrightarrow>
   processCut env ch d sub seg videoDuration c st = st"
  by (simp add: processCut_def)

lemma cutLoop_append:
  "cutLoop env ch d sub seg dur (xs @ ys) st = cutLoop env ch d sub seg dur ys (cutLoop env ch d sub seg dur xs st)"
  by (simp add: cutLoop_def)

text \<open>
  C5. A cut whose \<open>Begin\<close> or \<open>End\<close> exceeds the duration of the loaded segment is
  skipped: \<open>processCut\<close> returns the state it was given, so no call is made at all (no
  slice is extracted, no file is written, nothing is rendered or uploaded), and the
  loop goes on with the cuts that follow.
\<close>

theorem processCut_skips_out_of_range:
  assumes "videoDuration < of_int (Begin aCut) \<or> videoDuration < of_int (End aCut)"
  shows "processCut env channel outputDir subtitleFileName segmentVideoFile videoDuration
           aCut st = st
    \<and> cutLoop env channel outputDir subtitleFileName segmentVideoFile videoDuration
         (before @ aCut # after) st
       = cutLoop env channel outputDir subtitleFileName segmentVideoFile videoDuration after
           (cutLoop env channel outputDir subtitleFileName segmentVideoFile videoDuration
              before st)"
proof
  show skip: "processCut env channel outputDir subtitleFileName segmentVideoFile videoDuration
           aCut st = st" for st
    using assms by (rule processCut_skip)
  show "cutLoop env channel outputDir subtitleFileName segmentVideoFile videoDuration
         (before @ aCut # after) st
       = cutLoop env channel outputDir subtitleFileName segmentVideoFile videoDuration after
           (cutLoop env channel outputDir subtitleFileName segmentVideoFile videoDuration
              before st)"
    by (simp add: cutLoop_def skip)
qed

theorem processCut_skips_out_of_range_witness:
  "processCut (scripted 600 None (\<lambda>a. True) (\<lambda>n. TransportError) []) plainChannel
     ''out'' ''out/v.srt'' ''out/v.mp4'' 600 \<lparr>Title = ''X'', Begin = 0, End = 9999\<rparr> start
   = start"
proof -
  have "(600::rat) < of_int (Begin \<lparr>Title = ''X'', Begin = 0, End = 9999\<rparr>)
        \<or> (600::rat) < of_int (End \<lparr>Title = ''X'', Begin = 0, End = 9999\<rparr>)"
    by simp
  from processCut_skips_out_of_range[OF this] show ?thesis by blast
qed

text \<open>
  C8. The transcript handed to the metadata generator is the cleaned text of exactly
  the entries that lie inside the cut window, \<open>StartTime \<ge> Begin\<close> and
  \<open>EndTime \<le> End\<close>, each preceded by a space, in order, with the surrounding white
  space removed; an entry that only overlaps the window adds nothing. The bounds are
  compared as durations, which are \<open>Begin\<close> and \<open>End\<close> in nanoseconds when these fit 64
  bits. The only request the rest of the loop body posts is the metadata request that
  carries this transcript.
\<close>

theorem cutTranscript_contained_entries:
  "cutTranscript es aCut =
     TrimSpace (concat (map (\<lambda>x. '' '' @ cleanSubtitleText (Text x))
       (filter (\<lambda>x. secondsDuration (Begin aCut) \<le> StartTime x
                    \<and> EndTime x \<le> secondsDuration (End aCut)) es)))
   \<and> (fitsSeconds (Begin aCut) \<and> fitsSeconds (End aCut) \<longrightarrow>
        cutTranscript es aCut =
          TrimSpace (concat (map (\<lambda>x. '' '' @ cleanSubtitleText (Text x))
            (filter (\<lambda>x. Begin aCut * 1000000000 \<le> StartTime x
                         \<and> EndTime x \<le> End aCut * 1000000000) es))))
   \<and> set (requests (trace (finishCut env channel outputDir aCut tempOutputFileName
                              outputFileName cutSubtitleFileName es st)))
       \<subseteq> set (requests (trace st))
           \<union> {MetadataRequest (Title aCut) (cutTranscript es aCut) (Topics channel)}"
proof (intro conjI impI)
  show "cutTranscript es aCut =
     TrimSpace (concat (map (\<lambda>x. '' '' @ cleanSubtitleText (Text x))
       (filter (\<lambda>x. secondsDuration (Begin aCut) \<le> StartTime x
                    \<and> EndTime x \<le> secondsDuration (End aCut)) es)))"
    by (simp add: cutTranscript_def transcriptLoop_filter)
next
  assume "fitsSeconds (Begin aCut) \<and> fitsSeconds (End aCut)"
  then show "cutTranscript es aCut =
          TrimSpace (concat (map (\<lambda>x. '' '' @ cleanSubtitleText (Text x))
            (filter (\<lambda>x. Begin aCut * 1000000000 \<le> StartTime x
                         \<and> EndTime x \<le> End aCut * 1000000000) es)))"
    by (simp add: cutTranscript_def transcriptLoop_filter secondsDuration_exact)
next
  show "set (requests (trace (finishCut env channel outputDir aCut tempOutputFileName
                              outputFileName cutSubtitleFileName es st)))
       \<subseteq> set (requests (trace st))
           \<union> {MetadataRequest (Title aCut) (cutTranscript es aCut) (Topics channel)}"
    by (rule requests_finishCut)
qed

theorem cutTranscript_contained_entries_witness:
  "cutTranscript
     [\<lparr>Index = 1, StartTime = 10000000000, EndTime = 20000000000, Text = ''A''\<rparr>,
      \<lparr>Index = 2, StartTime = 25000000000, EndTime = 35000000000, Text = ''<c>B</c>''\<rparr>,
      \<lparr>Index = 3, StartTime = 40000000000, EndTime = 50000000000, Text = ''C''\<rparr>,
      \<lparr>Index = 4, StartTime = 45000000000, EndTime = 55000000000, Text = ''D''\<rparr>]
     \<lparr>Title = ''X'', Begin = 15, End = 50\<rparr>
   = ''B C''"
proof -
  let ?es = "[\<lparr>Index = 1, StartTime = 10000000000, EndTime = 20000000000, Text = ''A''\<rparr>,
      \<lparr>Index = 2, StartTime = 25000000000, EndTime = 35000000000, Text = ''<c>B</c>''\<rparr>,
      \<lparr>Index = 3, StartTime = 40000000000, EndTime = 50000000000, Text = ''C''\<rparr>,
      \<lparr>Index = 4, StartTime = 45000000000, EndTime = 55000000000, Text = ''D''\<rparr>]"
  let ?c = "\<lparr>Title = ''X'', Begin = 15, End = 50\<rparr>"
  have f: "fitsSeconds (Begin ?c) \<and> fitsSeconds (End ?c)"
    by (simp add: fitsSeconds_def)
  have v: "TrimSpace (concat (map (\<lambda>x. '' '' @ cleanSubtitleText (Text x))
            (filter (\<lambda>x. Begin ?c * 1000000000 \<le> StartTime x
                         \<and> EndTime x \<le> End ?c * 1000000000) ?es))) = ''B C''"
    by code_simp
  have "cutTranscript ?es ?c =
          TrimSpace (concat (map (\<lambda>x. '' '' @ cleanSubtitleText (Text x))
            (filter (\<lambda>x. Begin ?c * 1000000000 \<le> StartTime x
                         \<and> EndTime x \<le> End ?c * 1000000000) ?es)))"
    using cutTranscript_contained_entries[of ?es ?c] f by blast
  then show ?thesis by (simp only: v)
qed

section \<open>Properties of the segment planner\<close>

lemma splitStarts_append: "splitStarts (xs @ ys) = splitStarts xs @ splitStarts ys"
  by (induction xs rule: splitStarts.induct) simp_all

lemma perform_trace:
  "perform env a st = (ok, st') \<Longrightarrow> trace st' = trace st @ [Ran a ok]"
  by (auto simp: perform_def split: prod.splits)

lemma perform_result:
  "perform env a st = (ok, st') \<Longrightarrow> ok = fst (run env a (world st))"
  by (auto simp: perform_def split: prod.splits)

lemma readVTT_trace: "readVTT env path st = (content, st') \<Longrightarrow> trace st' = trace st"
  by (auto simp: readVTT_def split: prod.splits)

lemma go_int_of_int: "go_int (of_int k) = k"
  by (simp add: go_int_def)

lemma segmentCaptions_keeps:
  assumes "segmentCaptions env s f t vars st1 = (vars', st2)"
  shows "videoSegments vars' = videoSegments vars"
    and "splitStarts (trace st2) = splitStarts (trace st1)"
  using assms
  by (auto simp: segmentCaptions_def Let_def splitStarts_append
           split: option.splits prod.splits if_splits
           dest!: perform_trace readVTT_trace)

lemma splitLoop_done: "\<not> i < n \<Longrightarrow> splitLoop env v s n i vars st = (Inr vars, st)"
  by (subst splitLoop.simps) simp

lemma splitLoop_step:
  assumes "i < n" "4 \<le> length v" "4 \<le> length s"
    and p: "perform env (SplitSegment v (wrap64 (i * segmentDuration)) segmentDuration
              (partName v i ''.mp4'')) st = (True, st1)"
    and c: "segmentCaptions env s (partName s i ''.srt'') (wrap64 (i * segmentDuration)) vars st1
            = (vars', st4)"
  shows "splitLoop env v s n i vars st =
         splitLoop env v s n (i + 1)
           (vars'\<lparr>videoSegments := videoSegments vars' @ [partName v i ''.mp4'']\<rparr>) st4"
  using assms(1-3) c
  by (subst splitLoop.simps) (simp add: Let_def p)

lemma splitLoop_all:
  assumes names: "4 \<le> length v" "4 \<le> length s"
    and ok: "\<forall>t out w. fst (run env (SplitSegment v t segmentDuration out) w)"
  shows "\<exists>vars' st'. splitLoop env v s n i vars st = (Inr vars', st')
    \<and> videoSegments vars' = videoSegments vars @ map (\<lambda>k. partName v k ''.mp4'') [i..n - 1]
    \<and> splitStarts (trace st')
        = splitStarts (trace st) @ map (\<lambda>k. wrap64 (k * segmentDuration)) [i..n - 1]"
proof (induction "nat (n - i)" arbitrary: i vars st)
  case 0
  then have "\<not> i < n" by simp
  then show ?case by (simp add: splitLoop_done)
next
  case (Suc m)
  then have lt: "i < n" by simp
  let ?a = "SplitSegment v (wrap64 (i * segmentDuration)) segmentDuration (partName v i ''.mp4'')"
  obtain cutOk st1 where p0: "perform env ?a st = (cutOk, st1)" by (metis surj_pair)
  have "cutOk" using perform_result[OF p0] ok by simp
  then have p: "perform env ?a st = (True, st1)" using p0 by simp
  obtain vars' st4 where
    c: "segmentCaptions env s (partName s i ''.srt'') (wrap64 (i * segmentDuration)) vars st1
        = (vars', st4)"
    by (metis surj_pair)
  let ?vars = "vars'\<lparr>videoSegments := videoSegments vars' @ [partName v i ''.mp4'']\<rparr>"
  have step: "splitLoop env v s n i vars st = splitLoop env v s n (i + 1) ?vars st4"
    using lt names p c by (rule splitLoop_step)
  have m: "m = nat (n - (i + 1))" using Suc.hyps(2) by simp
  from Suc.hyps(1)[OF m, of ?vars st4] obtain vars'' st'' where
    res: "splitLoop env v s n (i + 1) ?vars st4 = (Inr vars'', st'')"
    and vs: "videoSegments vars'' = videoSegments ?vars
               @ map (\<lambda>k. partName v k ''.mp4'') [i + 1..n - 1]"
    and ss: "splitStarts (trace st'')
        = splitStarts (trace st4) @ map (\<lambda>k. wrap64 (k * segmentDuration)) [i + 1..n - 1]"
    by blast
  have up: "[i..n - 1] = i # [i + 1..n - 1]" using lt by (simp add: upto_rec1)
  have t4: "splitStarts (trace st4) = splitStarts (trace st) @ [wrap64 (i * segmentDuration)]"
    using segmentCaptions_keeps(2)[OF c] perform_trace[OF p]
    by (simp add: splitStarts_append)
  have v4: "videoSegments ?vars = videoSegments vars @ [partName v i ''.mp4'']"
    using segmentCaptions_keeps(1)[OF c] by simp
  show ?case
    unfolding step using res vs ss by (simp add: up t4 v4)
qed


lemma ceiling_segments:
  assumes "1200 < (D::rat)" "D \<le> 9000000000000000000"
  shows "2 \<le> \<lceil>D / 1200\<rceil>"
    and "\<forall>k \<in> set [0..\<lceil>D / 1200\<rceil> - 1]. wrap64 (k * segmentDuration) = k * 1200"
proof -
  have "1 < D / 1200" using assms(1) by simp
  then have "1 < \<lceil>D / 1200\<rceil>" by (simp add: less_ceiling_iff)
  then show "2 \<le> \<lceil>D / 1200\<rceil>" by simp
  have "D / 1200 \<le> 7500000000000000" using assms(2) by simp
  then have c: "\<lceil>D / 1200\<rceil> \<le> 7500000000000000"
    by (simp add: ceiling_le_iff)
  show "\<forall>k \<in> set [0..\<lceil>D / 1200\<rceil> - 1]. wrap64 (k * segmentDuration) = k * 1200"
  proof
    fix k
    assume "k \<in> set [0..\<lceil>D / 1200\<rceil> - 1]"
    then have "0 \<le> k" "k \<le> \<lceil>D / 1200\<rceil> - 1" by auto
    with c have "0 \<le> k" "k < 7500000000000000" by linarith+
    then show "wrap64 (k * segmentDuration) = k * 1200"
      by (simp add: segmentDuration_def wrap64_id)
  qed
qed

text \<open>
  C3. Let the probe report the duration \<open>D\<close>. If \<open>D \<le> 1200\<close>, \<open>splitLongVideo\<close>
  returns the given video and subtitle paths as the only segment and makes no call
  (the trace is unchanged: nothing is cut, nothing is written). If \<open>D > 1200\<close> and the
  media tool cuts every segment, it returns \<open>\<lceil>D / 1200\<rceil>\<close> video segments, named
  \<open>part1\<close>, \<open>part2\<close>, ... in order, and the cuts it has run start at
  \<open>0, 1200, 2400, ...\<close>. The file names are at least four bytes long, as the names
  \<open>DownloadVideo\<close> builds are, and \<open>D\<close> is small enough for the offsets to fit 64 bits.
\<close>

theorem splitLongVideo_segments:
  assumes "ffprobe env videoFileName (world st) = (Probed D, w)"
  shows "(D \<le> 1200 \<longrightarrow>
          splitLongVideo env videoFileName subtitleFileName st
          = (Inr \<lparr>videoSegments = [videoFileName], subtitleSegments = [subtitleFileName]\<rparr>,
             st\<lparr>world := w\<rparr>))
    \<and> (1200 < D \<and> D \<le> 9000000000000000000
        \<and> 4 \<le> length videoFileName \<and> 4 \<le> length subtitleFileName
        \<and> (\<forall>t out w'. fst (run env (SplitSegment videoFileName t segmentDuration out) w'))
        \<longrightarrow> (\<exists>vars st'. splitLongVideo env videoFileName subtitleFileName st = (Inr vars, st')
              \<and> int (length (videoSegments vars)) = \<lceil>D / 1200\<rceil>
              \<and> videoSegments vars
                  = map (\<lambda>k. partName videoFileName k ''.mp4'') [0..\<lceil>D / 1200\<rceil> - 1]
              \<and> splitStarts (trace st')
                  = splitStarts (trace st) @ map (\<lambda>k. k * 1200) [0..\<lceil>D / 1200\<rceil> - 1]))"
proof (intro conjI impI)
  assume "D \<le> 1200"
  then show "splitLongVideo env videoFileName subtitleFileName st
          = (Inr \<lparr>videoSegments = [videoFileName], subtitleSegments = [subtitleFileName]\<rparr>,
             st\<lparr>world := w\<rparr>)"
    using assms by (simp add: splitLongVideo_def segmentDuration_def)
next
  assume h: "1200 < D \<and> D \<le> 9000000000000000000
        \<and> 4 \<le> length videoFileName \<and> 4 \<le> length subtitleFileName
        \<and> (\<forall>t out w'. fst (run env (SplitSegment videoFileName t segmentDuration out) w'))"
  let ?n = "\<lceil>D / 1200\<rceil>"
  let ?st1 = "st\<lparr>world := w\<rparr>"
  have unfold: "splitLongVideo env videoFileName subtitleFileName st
      = splitLoop env videoFileName subtitleFileName ?n 0
          \<lparr>videoSegments = [], subtitleSegments = []\<rparr> ?st1"
    using assms h by (simp add: splitLongVideo_def segmentDuration_def go_int_of_int)
  from h have names: "4 \<le> length videoFileName" "4 \<le> length subtitleFileName"
    and ok: "\<forall>t out w'. fst (run env (SplitSegment videoFileName t segmentDuration out) w')"
    by simp_all
  from splitLoop_all[OF names ok, of ?n 0 "\<lparr>videoSegments = [], subtitleSegments = []\<rparr>" ?st1]
  obtain vars st' where
    res: "splitLoop env videoFileName subtitleFileName ?n 0
            \<lparr>videoSegments = [], subtitleSegments = []\<rparr> ?st1 = (Inr vars, st')"
    and vs: "videoSegments vars = map (\<lambda>k. partName videoFileName k ''.mp4'') [0..?n - 1]"
    and ss: "splitStarts (trace st')
              = splitStarts (trace st) @ map (\<lambda>k. wrap64 (k * segmentDuration)) [0..?n - 1]"
    by auto
  from h have D: "1200 < D" "D \<le> 9000000000000000000" by simp_all
  have "map (\<lambda>k. wrap64 (k * segmentDuration)) [0..?n - 1] = map (\<lambda>k. k * 1200) [0..?n - 1]"
    using ceiling_segments(2)[OF D] by (intro map_cong) auto
  then have ss': "splitStarts (trace st')
              = splitStarts (trace st) @ map (\<lambda>k. k * 1200) [0..?n - 1]"
    using ss by simp
  have len: "int (length (videoSegments vars)) = ?n"
    using ceiling_segments(1)[OF D] by (simp add: vs)
  show "\<exists>vars st'. splitLongVideo env videoFileName subtitleFileName st = (Inr vars, st')
              \<and> int (length (videoSegments vars)) = \<lceil>D / 1200\<rceil>
              \<and> videoSegments vars
                  = map (\<lambda>k. partName videoFileName k ''.mp4'') [0..\<lceil>D / 1200\<rceil> - 1]
              \<and> splitStarts (trace st')
                  = splitStarts (trace st) @ map (\<lambda>k. k * 1200) [0..\<lceil>D / 1200\<rceil> - 1]"
    unfolding unfold using res len vs ss' by blast
qed

theorem splitLongVideo_segments_witness:
  "splitLongVideo (scripted 2500 None (\<lambda>a. True) (\<lambda>n. TransportError) [])
     ''out/v.mp4'' ''out/v.srt'' start
   = (Inr \<lparr>videoSegments = [''out/v.part1.mp4'', ''out/v.part2.mp4'', ''out/v.part3.mp4''],
           subtitleSegments = []\<rparr>,
      \<lparr>world = (0::nat),
       trace = [Ran (SplitSegment ''out/v.mp4'' 0 1200 ''out/v.part1.mp4'') True,
                Ran (SplitSegment ''out/v.mp4'' 1200 1200 ''out/v.part2.mp4'') True,
                Ran (SplitSegment ''out/v.mp4'' 2400 1200 ''out/v.part3.mp4'') True]\<rparr>)
   \<and> (\<exists>vars st'.
         splitLongVideo (scripted 2500 None (\<lambda>a. True) (\<lambda>n. TransportError) [])
           ''out/v.mp4'' ''out/v.srt'' start = (Inr vars, st')
         \<and> int (length (videoSegments vars)) = 3
         \<and> splitStarts (trace st') = [0, 1200, 2400])
   \<and> splitLongVideo (scripted 1200 None (\<lambda>a. True) (\<lambda>n. TransportError) [])
         ''out/v.mp4'' ''out/v.srt'' start
       = (Inr \<lparr>videoSegments = [''out/v.mp4''], subtitleSegments = [''out/v.srt'']\<rparr>, start)"
proof -
  let ?E = "scripted 2500 None (\<lambda>a. True) (\<lambda>n. TransportError) []"
  let ?F = "scripted 1200 None (\<lambda>a. True) (\<lambda>n. TransportError) []"
  have e: "splitLongVideo ?E ''out/v.mp4'' ''out/v.srt'' start
   = (Inr \<lparr>videoSegments = [''out/v.part1.mp4'', ''out/v.part2.mp4'', ''out/v.part3.mp4''],
           subtitleSegments = []\<rparr>,
      \<lparr>world = (0::nat),
       trace = [Ran (SplitSegment ''out/v.mp4'' 0 1200 ''out/v.part1.mp4'') True,
                Ran (SplitSegment ''out/v.mp4'' 1200 1200 ''out/v.part2.mp4'') True,
                Ran (SplitSegment ''out/v.mp4'' 2400 1200 ''out/v.part3.mp4'') True]\<rparr>)"
    by code_simp
  have p: "ffprobe ?E ''out/v.mp4'' (world start) = (Probed 2500, 0)"
    by (simp add: scripted_def start_def)
  have h: "1200 < (2500::rat) \<and> (2500::rat) \<le> 9000000000000000000
        \<and> 4 \<le> length ''out/v.mp4'' \<and> 4 \<le> length ''out/v.srt''
        \<and> (\<forall>t out w'. fst (run ?E (SplitSegment ''out/v.mp4'' t segmentDuration out) w'))"
    by (simp add: scripted_def)
  have c: "\<lceil>(2500::rat) / 1200\<rceil> = 3" by code_simp
  have u: "[0..(3::int) - 1] = [0, 1, 2]" by code_simp
  from splitLongVideo_segments[OF p, of "''out/v.srt''"] h
  have "\<exists>vars st'. splitLongVideo ?E ''out/v.mp4'' ''out/v.srt'' start = (Inr vars, st')
              \<and> int (length (videoSegments vars)) = \<lceil>(2500::rat) / 1200\<rceil>
              \<and> videoSegments vars
                  = map (\<lambda>k. partName ''out/v.mp4'' k ''.mp4'') [0..\<lceil>(2500::rat) / 1200\<rceil> - 1]
              \<and> splitStarts (trace st')
                  = splitStarts (trace start)
                    @ map (\<lambda>k. k * 1200) [0..\<lceil>(2500::rat) / 1200\<rceil> - 1]"
    by blast
  then have m: "\<exists>vars st'. splitLongVideo ?E ''out/v.mp4'' ''out/v.srt'' start = (Inr vars, st')
         \<and> int (length (videoSegments vars)) = 3
         \<and> splitStarts (trace st') = [0, 1200, 2400]"
    unfolding c u by (auto simp: start_def)
  have q: "ffprobe ?F ''out/v.mp4'' (world start) = (Probed 1200, 0)"
    by (simp add: scripted_def start_def)
  have "splitLongVideo ?F ''out/v.mp4'' ''out/v.srt'' start
       = (Inr \<lparr>videoSegments = [''out/v.mp4''], subtitleSegments = [''out/v.srt'']\<rparr>,
          start\<lparr>world := 0\<rparr>)"
    using splitLongVideo_segments[OF q, of "''out/v.srt''"] by simp
  then have s: "splitLongVideo ?F ''out/v.mp4'' ''out/v.srt'' start
       = (Inr \<lparr>videoSegments = [''out/v.mp4''], subtitleSegments = [''out/v.srt'']\<rparr>, start)"
    by (simp add: start_def)
  from e m s show ?thesis by blast
qed

section \<open>Properties of the retry loops\<close>

lemma cutsAttempts_done:
  "\<not> attempt < maxRetries \<Longrightarrow> cutsAttempts env req attempt sc r st = ((sc, r), st)"
  by (subst cutsAttempts.simps) simp

lemma cutsAttempts_step:
  assumes "attempt < maxRetries" and "n = attempt + 1"
    and "send env 120 req (if attempt > 0 then sleep (backoff attempt) st else st) = (out, st2)"
  shows "cutsAttempts env req attempt sc r st =
    (case cutsChoices env out of
       Some stored \<Rightarrow> ((200, stored r), st2)
     | None \<Rightarrow> cutsAttempts env req n (statusAfter sc out) (choicesKept env out r) st2)"
  using assms
  by (subst cutsAttempts.simps)
     (auto simp: cutsChoices_def choicesKept_def statusAfter_def Let_def
           split: httpOutcome.splits option.splits prod.splits)

lemma send_trace:
  "send env t req st = (out, st') \<Longrightarrow> trace st' = trace st @ [Posted t req out]"
  by (auto simp: send_def split: prod.splits)

text \<open>
  The three attempts, one after the other. \<open>apiResponse\<close> goes from one attempt to the
  next: a failed attempt hands on what it has left there.
\<close>

lemma cutsAttempts_trace:
  assumes "cutsAttempts env req 0 0 [] st = ((code, choices), st')"
  shows "\<exists>evs. trace st' = trace st @ evs \<and>
    ((\<exists>o0 stored. evs = [Posted 120 req o0] \<and> cutsChoices env o0 = Some stored
           \<and> code = 200 \<and> choices = stored [])
     \<or> (\<exists>o0 o1 stored. evs = [Posted 120 req o0, Slept 2, Posted 120 req o1]
           \<and> cutsChoices env o0 = None \<and> cutsChoices env o1 = Some stored
           \<and> code = 200 \<and> choices = stored (choicesKept env o0 []))
     \<or> (\<exists>o0 o1 o2. evs = [Posted 120 req o0, Slept 2, Posted 120 req o1, Slept 4,
                            Posted 120 req o2]
           \<and> cutsChoices env o0 = None \<and> cutsChoices env o1 = None
           \<and> (case cutsChoices env o2 of
                 Some stored \<Rightarrow>
                   code = 200 \<and> choices = stored (choicesKept env o1 (choicesKept env o0 []))
               | None \<Rightarrow>
                   code = statusAfter (statusAfter (statusAfter 0 o0) o1) o2
                   \<and> choices = choicesKept env o2 (choicesKept env o1 (choicesKept env o0 [])))))"
proof -
  have lt: "(0::int) < maxRetries" "(1::int) < maxRetries" "(2::int) < maxRetries"
    "\<not> (3::int) < maxRetries"
    by (simp_all add: maxRetries_def)
  have b: "backoff 1 = 2" "backoff 2 = 4" by (simp_all add: backoff_def)
  obtain o0 s0 where p0: "send env 120 req st = (o0, s0)" by (metis surj_pair)
  have t0: "trace s0 = trace st @ [Posted 120 req o0]" using send_trace[OF p0] .
  let ?r0 = "choicesKept env o0 []"
  have a0: "cutsAttempts env req 0 0 [] st =
    (case cutsChoices env o0 of Some stored \<Rightarrow> ((200, stored []), s0)
     | None \<Rightarrow> cutsAttempts env req 1 (statusAfter 0 o0) ?r0 s0)"
    using cutsAttempts_step[OF lt(1), of 1 env req st o0 s0 0 "[]"] p0 by simp
  show ?thesis
  proof (cases "cutsChoices env o0")
    case (Some stored)
    then have "code = 200" "choices = stored []" "st' = s0" using assms a0 by simp_all
    then show ?thesis using t0 Some by auto
  next
    case n0: None
    obtain o1 s1 where p1: "send env 120 req (sleep 2 s0) = (o1, s1)" by (metis surj_pair)
    have t1: "trace s1 = trace st @ [Posted 120 req o0, Slept 2, Posted 120 req o1]"
      using send_trace[OF p1] t0 by (simp add: sleep_def)
    let ?r1 = "choicesKept env o1 ?r0"
    have a1: "cutsAttempts env req 1 (statusAfter 0 o0) ?r0 s0 =
      (case cutsChoices env o1 of Some stored \<Rightarrow> ((200, stored ?r0), s1)
       | None \<Rightarrow> cutsAttempts env req 2 (statusAfter (statusAfter 0 o0) o1) ?r1 s1)"
      using cutsAttempts_step[OF lt(2), of 2 env req s0 o1 s1 "statusAfter 0 o0" ?r0] p1
      by (simp add: b)
    show ?thesis
    proof (cases "cutsChoices env o1")
      case (Some stored)
      then have "code = 200" "choices = stored ?r0" "st' = s1"
        using assms a0 a1 n0 by simp_all
      then show ?thesis using t1 Some n0 by auto
    next
      case n1: None
      obtain o2 s2 where p2: "send env 120 req (sleep 4 s1) = (o2, s2)" by (metis surj_pair)
      have t2: "trace s2 = trace st @ [Posted 120 req o0, Slept 2, Posted 120 req o1, Slept 4,
                                        Posted 120 req o2]"
        using send_trace[OF p2] t1 by (simp add: sleep_def)
      let ?sc = "statusAfter (statusAfter 0 o0) o1"
      let ?r2 = "choicesKept env o2 ?r1"
      have a2: "cutsAttempts env req 2 ?sc ?r1 s1 =
        (case cutsChoices env o2 of Some stored \<Rightarrow> ((200, stored ?r1), s2)
         | None \<Rightarrow> cutsAttempts env req 3 (statusAfter ?sc o2) ?r2 s2)"
        using cutsAttempts_step[OF lt(3), of 3 env req s1 o2 s2 ?sc ?r1] p2
        by (simp add: b)
      have a3: "cutsAttempts env req 3 (statusAfter ?sc o2) ?r2 s2
                = ((statusAfter ?sc o2, ?r2), s2)"
        using lt(4) by (rule cutsAttempts_done)
      have "st' = s2" using assms a0 a1 a2 a3 n0 n1 by (cases "cutsChoices env o2") simp_all
      moreover have "case cutsChoices env o2 of
                       Some stored \<Rightarrow> code = 200 \<and> choices = stored ?r1
                     | None \<Rightarrow> code = statusAfter ?sc o2 \<and> choices = ?r2"
        using assms a0 a1 a2 a3 n0 n1 by (cases "cutsChoices env o2") simp_all
      ultimately show ?thesis using t2 n0 n1 by blast
    qed
  qed
qed

lemma GetCuts_cases:
  assumes "GetCuts env subtleFileName topics excerpts stretchTime st = (cuts, st')"
  shows "(\<exists>st1. readVTT env (vttPathOf subtleFileName) st = (None, st1) \<and> cuts = [] \<and> st' = st1)
    \<or> (\<exists>content st1 code choices.
          readVTT env (vttPathOf subtleFileName) st = (Some content, st1)
          \<and> cutsAttempts env (CutsRequest content topics excerpts stretchTime) 0 0 [] st1
              = ((code, choices), st')
          \<and> cuts = (if code \<noteq> 200 then [] else cutsOfChoices env choices))"
proof -
  obtain got st1 where r: "readVTT env (vttPathOf subtleFileName) st = (got, st1)"
    by (metis surj_pair)
  show ?thesis
  proof (cases got)
    case None
    then show ?thesis using assms r by (simp add: GetCuts_def)
  next
    case (Some content)
    obtain code choices st2 where
      a: "cutsAttempts env (CutsRequest content topics excerpts stretchTime) 0 0 [] st1
          = ((code, choices), st2)"
      by (metis surj_pair)
    have "cuts = (if code \<noteq> 200 then [] else cutsOfChoices env choices)" "st' = st2"
      using assms r Some a
      by (auto simp: GetCuts_def cutsOfChoices_def split: list.splits option.splits if_splits)
    then show ?thesis using r Some a by auto
  qed
qed

text \<open>
  The attempts of \<open>GetCuts\<close> and the delays between them. What \<open>GetCuts\<close> adds to the
  trace is nothing (the caption file could not be read: no attempt at all), or one
  request, or a request, a sleep of 2 seconds and a request, or these and a sleep of 4
  seconds and a third request: at most three attempts, no delay before the first, 2
  seconds before the second, 4 before the third. An attempt is followed by another one
  exactly when it failed (\<open>cutsChoices\<close> is \<open>None\<close>: a transport error, a body that could
  not be read, a status other than 200 or a body that \<^verbatim>\<open>json.Unmarshal\<close> rejects). When
  an attempt succeeds, the result is what the first choice in \<open>apiResponse\<close> decodes to.
  When the third attempt fails too, the result is empty if the status code that is left
  differs from 200, and otherwise it is again what the first choice in \<open>apiResponse\<close>
  decodes to: the choices that the failed attempts have left there.
\<close>

lemma GetCuts_attempts:
  assumes "GetCuts env subtleFileName topics excerpts stretchTime st = (cuts, st')"
  shows "\<exists>evs. trace st' = trace st @ evs \<and>
    ((evs = [] \<and> cuts = [])
     \<or> (\<exists>req o0 stored. evs = [Posted 120 req o0]
           \<and> cutsChoices env o0 = Some stored \<and> cuts = cutsOfChoices env (stored []))
     \<or> (\<exists>req o0 o1 stored. evs = [Posted 120 req o0, Slept 2, Posted 120 req o1]
           \<and> cutsChoices env o0 = None \<and> cutsChoices env o1 = Some stored
           \<and> cuts = cutsOfChoices env (stored (choicesKept env o0 [])))
     \<or> (\<exists>req o0 o1 o2. evs = [Posted 120 req o0, Slept 2, Posted 120 req o1, Slept 4,
                                Posted 120 req o2]
           \<and> cutsChoices env o0 = None \<and> cutsChoices env o1 = None
           \<and> cuts = (case cutsChoices env o2 of
                       Some stored \<Rightarrow>
                         cutsOfChoices env (stored (choicesKept env o1 (choicesKept env o0 [])))
                     | None \<Rightarrow>
                         if statusAfter (statusAfter (statusAfter 0 o0) o1) o2 \<noteq> 200 then []
                         else cutsOfChoices env
                                (choicesKept env o2
                                   (choicesKept env o1 (choicesKept env o0 []))))))"
proof -
  from GetCuts_cases[OF assms] show ?thesis
  proof (elim disjE exE conjE)
    fix st1
    assume "readVTT env (vttPathOf subtleFileName) st = (None, st1)" "cuts = []" "st' = st1"
    then have "trace st' = trace st @ []" "cuts = []"
      by (simp_all add: readVTT_trace)
    then show ?thesis by blast
  next
    fix content st1 code choices
    let ?req = "CutsRequest content topics excerpts stretchTime"
    assume r: "readVTT env (vttPathOf subtleFileName) st = (Some content, st1)"
      and a: "cutsAttempts env ?req 0 0 [] st1 = ((code, choices), st')"
      and c: "cuts = (if code \<noteq> 200 then [] else cutsOfChoices env choices)"
    have t1: "trace st1 = trace st" using r by (rule readVTT_trace)
    from cutsAttempts_trace[OF a] obtain evs where
      evs: "trace st' = trace st @ evs"
      and d: "(\<exists>o0 stored. evs = [Posted 120 ?req o0] \<and> cutsChoices env o0 = Some stored
           \<and> code = 200 \<and> choices = stored [])
     \<or> (\<exists>o0 o1 stored. evs = [Posted 120 ?req o0, Slept 2, Posted 120 ?req o1]
           \<and> cutsChoices env o0 = None \<and> cutsChoices env o1 = Some stored
           \<and> code = 200 \<and> choices = stored (choicesKept env o0 []))
     \<or> (\<exists>o0 o1 o2. evs = [Posted 120 ?req o0, Slept 2, Posted 120 ?req o1, Slept 4,
                            Posted 120 ?req o2]
           \<and> cutsChoices env o0 = None \<and> cutsChoices env o1 = None
           \<and> (case cutsChoices env o2 of
                 Some stored \<Rightarrow>
                   code = 200 \<and> choices = stored (choicesKept env o1 (choicesKept env o0 []))
               | None \<Rightarrow>
                   code = statusAfter (statusAfter (statusAfter 0 o0) o1) o2
                   \<and> choices = choicesKept env o2 (choicesKept env o1 (choicesKept env o0 []))))"
      unfolding t1 by blast
    from d show ?thesis
    proof (elim disjE exE conjE)
      fix o0 stored
      assume "evs = [Posted 120 ?req o0]" "cutsChoices env o0 = Some stored" "code = 200"
        "choices = stored []"
      then show ?thesis using evs c by auto
    next
      fix o0 o1 stored
      assume "evs = [Posted 120 ?req o0, Slept 2, Posted 120 ?req o1]"
        "cutsChoices env o0 = None" "cutsChoices env o1 = Some stored" "code = 200"
        "choices = stored (choicesKept env o0 [])"
      then show ?thesis using evs c by auto
    next
      fix o0 o1 o2
      assume x: "evs = [Posted 120 ?req o0, Slept 2, Posted 120 ?req o1, Slept 4,
                        Posted 120 ?req o2]"
        "cutsChoices env o0 = None" "cutsChoices env o1 = None"
        and y: "case cutsChoices env o2 of
                 Some stored \<Rightarrow>
                   code = 200 \<and> choices = stored (choicesKept env o1 (choicesKept env o0 []))
               | None \<Rightarrow>
                   code = statusAfter (statusAfter (statusAfter 0 o0) o1) o2
                   \<and> choices = choicesKept env o2 (choicesKept env o1 (choicesKept env o0 []))"
      have "cuts = (case cutsChoices env o2 of
                       Some stored \<Rightarrow>
                         cutsOfChoices env (stored (choicesKept env o1 (choicesKept env o0 [])))
                     | None \<Rightarrow>
                         if statusAfter (statusAfter (statusAfter 0 o0) o1) o2 \<noteq> 200 then []
                         else cutsOfChoices env
                                (choicesKept env o2
                                   (choicesKept env o1 (choicesKept env o0 []))))"
        using y c by (cases "cutsChoices env o2") auto
      then show ?thesis using evs x by blast
    qed
  qed
qed

text \<open>A service that fails twice and then answers: three attempts, and the cuts.\<close>

lemma GetCuts_flaky:
  "GetCuts (scripted 600 (Some ''WEBVTT'') (\<lambda>a. True) flaky
              [\<lparr>Title = ''clip'', Begin = 0, End = 60\<rparr>])
     ''out/v.part1.srt'' ''go'' 1 1 start
   = ([\<lparr>Title = ''clip'', Begin = 0, End = 60\<rparr>],
      \<lparr>world = (3::nat),
       trace = [Posted 120 (CutsRequest ''WEBVTT'' ''go'' 1 1) TransportError,
                Slept 2,
                Posted 120 (CutsRequest ''WEBVTT'' ''go'' 1 1)
                  (Response 500 ''Internal Server Error''),
                Slept 4,
                Posted 120 (CutsRequest ''WEBVTT'' ''go'' 1 1)
                  (Response 200 ''one choice'')]\<rparr>)"
  by code_simp

text \<open>
  C4 (the code departs from it). The claim is that \<open>GetCuts\<close> makes at most three
  attempts, waits 2 and 4 seconds before the second and the third, counts a body that
  does not parse as a failed attempt, and returns an empty result once all attempts are
  exhausted. The attempts and the delays are as claimed; the empty result is not.
  \<open>apiResponse\<close> is declared before the loop, and a body that \<^verbatim>\<open>json.Unmarshal\<close> rejects
  after it has decoded a choice leaves that choice there. Let the service answer every
  request with status 200 and such a body. Then each of the three attempts fails
  (\<open>cutsChoices\<close> is \<open>None\<close>), \<open>GetCuts\<close> sleeps 2 and 4 seconds between them, and after
  the third it finds status 200 and a choice, and returns the cuts the choice decodes
  to instead of the empty result. With bodies that are no JSON at all the same three
  attempts end in the empty result.
\<close>

theorem GetCuts_exhausted_returns_cuts:
  "GetCuts (scripted 600 (Some ''WEBVTT'') (\<lambda>a. True) stuck
              [\<lparr>Title = ''clip'', Begin = 0, End = 60\<rparr>])
     ''out/v.part1.srt'' ''go'' 1 1 start
   = ([\<lparr>Title = ''clip'', Begin = 0, End = 60\<rparr>],
      \<lparr>world = (3::nat),
       trace = [Posted 120 (CutsRequest ''WEBVTT'' ''go'' 1 1)
                  (Response 200 ''one choice, then a number''),
                Slept 2,
                Posted 120 (CutsRequest ''WEBVTT'' ''go'' 1 1)
                  (Response 200 ''one choice, then a number''),
                Slept 4,
                Posted 120 (CutsRequest ''WEBVTT'' ''go'' 1 1)
                  (Response 200 ''one choice, then a number'')]\<rparr>)
   \<and> cutsChoices (scripted 600 (Some ''WEBVTT'') (\<lambda>a. True) stuck
                    [\<lparr>Title = ''clip'', Begin = 0, End = 60\<rparr>])
       (Response 200 ''one choice, then a number'') = None
   \<and> fst (GetCuts (scripted 600 (Some ''WEBVTT'') (\<lambda>a. True) (\<lambda>n. Response 200 ''<html>'')
                     [\<lparr>Title = ''clip'', Begin = 0, End = 60\<rparr>])
            ''out/v.part1.srt'' ''go'' 1 1 start) = []"
proof -
  have a: "GetCuts (scripted 600 (Some ''WEBVTT'') (\<lambda>a. True) stuck
              [\<lparr>Title = ''clip'', Begin = 0, End = 60\<rparr>])
     ''out/v.part1.srt'' ''go'' 1 1 start
   = ([\<lparr>Title = ''clip'', Begin = 0, End = 60\<rparr>],
      \<lparr>world = (3::nat),
       trace = [Posted 120 (CutsRequest ''WEBVTT'' ''go'' 1 1)
                  (Response 200 ''one choice, then a number''),
                Slept 2,
                Posted 120 (CutsRequest ''WEBVTT'' ''go'' 1 1)
                  (Response 200 ''one choice, then a number''),
                Slept 4,
                Posted 120 (CutsRequest ''WEBVTT'' ''go'' 1 1)
                  (Response 200 ''one choice, then a number'')]\<rparr>)"
    by code_simp
  have b: "cutsChoices (scripted 600 (Some ''WEBVTT'') (\<lambda>a. True) stuck
                    [\<lparr>Title = ''clip'', Begin = 0, End = 60\<rparr>])
       (Response 200 ''one choice, then a number'') = None"
    by code_simp
  have c: "fst (GetCuts (scripted 600 (Some ''WEBVTT'') (\<lambda>a. True) (\<lambda>n. Response 200 ''<html>'')
                     [\<lparr>Title = ''clip'', Begin = 0, End = 60\<rparr>])
            ''out/v.part1.srt'' ''go'' 1 1 start) = []"
    by code_simp
  from a b c show ?thesis by blast
qed

section \<open>Properties of the metadata step\<close>

lemma actionsOf_append: "actionsOf (xs @ ys) = actionsOf xs @ actionsOf ys"
  by (induction xs rule: actionsOf.induct) simp_all

lemma actions_perform:
  "perform env a st = (ok, st') \<Longrightarrow> actionsOf (trace st') = actionsOf (trace st) @ [a]"
  by (auto simp: actionsOf_append dest!: perform_trace)

lemma actions_performIgnored:
  "actionsOf (trace (performIgnored env a st)) = actionsOf (trace st) @ [a]"
  by (metis actions_perform performIgnored_def surjective_pairing)

lemma actions_sleep: "actionsOf (trace (sleep n st)) = actionsOf (trace st)"
  by (simp add: sleep_def actionsOf_append)

lemma actions_send: "send env t r st = (out, st') \<Longrightarrow> actionsOf (trace st') = actionsOf (trace st)"
  by (auto simp: actionsOf_append dest!: send_trace)

lemma actions_metadataAttempts:
  "metadataAttempts env r attempt sc m st = (res, st') \<Longrightarrow>
   actionsOf (trace st') = actionsOf (trace st)"
proof (induction "nat (maxRetries - attempt)" arbitrary: attempt sc m st)
  case 0
  then have "\<not> attempt < maxRetries" by simp
  with "0.prems" show ?case by (auto simp: metadataAttempts_done)
next
  case (Suc k)
  then have lt: "attempt < maxRetries" by simp
  let ?st1 = "if attempt > 0 then sleep (backoff attempt) st else st"
  obtain out st2 where s: "send env 60 r ?st1 = (out, st2)" by (cases "send env 60 r ?st1")
  have r2: "actionsOf (trace st2) = actionsOf (trace st)"
    using actions_send[OF s] by (simp add: actions_sleep)
  show ?case
  proof (cases "metadataOf env out")
    case (Some found)
    then have "st' = st2"
      using Suc.prems metadataAttempts_step[OF lt refl s] by simp
    then show ?thesis using r2 by simp
  next
    case None
    then have rec: "metadataAttempts env r (attempt + 1) (statusAfter sc out)
                      (metadataKept env out m) st2 = (res, st')"
      using Suc.prems metadataAttempts_step[OF lt refl s] by simp
    have "k = nat (maxRetries - (attempt + 1))" using Suc.hyps(2) by simp
    from Suc.hyps(1)[OF this rec] show ?thesis using r2 by simp
  qed
qed

lemma actions_GenerateMetadata:
  "GenerateMetadata env title content topics st = (res, st') \<Longrightarrow>
   actionsOf (trace st') = actionsOf (trace st)"
  by (auto simp: GenerateMetadata_def Let_def split: prod.splits if_splits
           dest!: actions_metadataAttempts)

text \<open>What a stage adds, seen through a filter that lets neither \<open>Stat\<close> nor \<open>Mkdir\<close> pass.\<close>

lemma filter_ensureDir:
  assumes "\<And>p. \<not> P (Stat p)" "\<And>p. \<not> P (Mkdir p)"
  shows "filter P (actionsOf (trace (ensureDir env dir st))) = filter P (actionsOf (trace st))"
proof -
  obtain found st1 where s: "perform env (Stat dir) st = (found, st1)" by (metis surj_pair)
  show ?thesis
    using actions_perform[OF s] assms
    by (simp add: ensureDir_def s actions_performIgnored)
qed

lemma filter_coverStage:
  assumes "\<And>p. \<not> P (Stat p)" "\<And>p. \<not> P (Mkdir p)"
  shows "filter P (actionsOf (trace (coverStage env ch d c st)))
    = filter P (actionsOf (trace st))
      @ filter P (if CoverVideoBase ch \<noteq> []
                  then [CoverImage (CoverVideoBase ch) (Title c) (d @ ''/covers/'' @ Title c @ ''.jpg'')]
                  else [])"
  by (simp add: coverStage_def Let_def actions_performIgnored filter_ensureDir[of P, OF assms])

lemma filter_verticalStage:
  assumes "\<And>p. \<not> P (Stat p)" "\<And>p. \<not> P (Mkdir p)"
  shows "filter P (actionsOf (trace (verticalStage env ch d c out st)))
    = filter P (actionsOf (trace st))
      @ filter P (if VerticalVideoBase ch \<noteq> []
                  then [Overlay (VerticalVideoBase ch) out (d @ ''/vertical/'' @ Title c @ ''.mp4'')]
                  else [])"
  by (simp add: verticalStage_def Let_def actions_performIgnored filter_ensureDir[of P, OF assms])

lemma filter_horizontalStage:
  assumes "\<And>p. \<not> P (Stat p)" "\<And>p. \<not> P (Mkdir p)"
  shows "filter P (actionsOf (trace (horizontalStage env ch d c out st)))
    = filter P (actionsOf (trace st))
      @ filter P (if HorizontalVideoBase ch \<noteq> []
                  then [Overlay (HorizontalVideoBase ch) out
                          (d @ ''/horizontal-yt/'' @ Title c @ ''.mp4'')]
                  else [])"
  by (simp add: horizontalStage_def Let_def actions_performIgnored filter_ensureDir[of P, OF assms])

lemma filter_variants:
  assumes "\<And>p. \<not> P (Stat p)" "\<And>p. \<not> P (Mkdir p)"
  shows "filter P (actionsOf (trace (horizontalStage env ch d c out
            (verticalStage env ch d c out (coverStage env ch d c st)))))
    = filter P (actionsOf (trace st)) @ filter P (configuredVariants ch d c out)"
  by (simp add: filter_horizontalStage[of P, OF assms] filter_verticalStage[of P, OF assms]
        filter_coverStage[of P, OF assms] configuredVariants_def)

lemma uploadStage_none: "uploadStage env ch d c None st = st"
  by (simp add: uploadStage_def)

lemma finishCut_without_metadata:
  assumes g: "GenerateMetadata env (Title c) (cutTranscript es c) (Topics ch) st
              = ((None, err), st1)"
    and P: "\<And>p. \<not> P (Stat p)" "\<And>p. \<not> P (Mkdir p)" "\<And>a b. \<not> P (Rename a b)"
      "\<And>a. \<not> P (Remove a)" "\<And>a b c. \<not> P (BurnSubtitles a b c)"
  shows "filter P (actionsOf (trace (finishCut env ch d c tmp out srt es st)))
    = filter P (actionsOf (trace st)) @ filter P (configuredVariants ch d c out)"
proof -
  obtain burned st3 where b: "perform env (BurnSubtitles tmp srt out) st1 = (burned, st3)"
    by (metis surj_pair)
  have 1: "actionsOf (trace st1) = actionsOf (trace st)"
    using g by (rule actions_GenerateMetadata)
  have 3: "filter P (actionsOf (trace st3)) = filter P (actionsOf (trace st))"
    using actions_perform[OF b] 1 P by simp
  let ?st4 = "if \<not> burned then performIgnored env (Rename tmp out) st3 else st3"
  let ?st6 = "performIgnored env (Remove srt) (performIgnored env (Remove tmp) ?st4)"
  have 6: "filter P (actionsOf (trace ?st6)) = filter P (actionsOf (trace st))"
    using 3 P by (simp add: actions_performIgnored)
  have "finishCut env ch d c tmp out srt es st
        = horizontalStage env ch d c out (verticalStage env ch d c out (coverStage env ch d c ?st6))"
    by (cases err) (simp_all add: finishCut_def Let_def g b uploadStage_none)
  then show ?thesis
    using filter_variants[of P env ch d c out ?st6, OF P(1,2)] 6 by simp
qed

lemma metadataAttempts_exhausted:
  assumes "send env 60 req st = (o0, s0)" "metadataOf env o0 = None"
    and "send env 60 req (sleep 2 s0) = (o1, s1)" "metadataOf env o1 = None"
    and "send env 60 req (sleep 4 s1) = (o2, s2)" "metadataOf env o2 = None"
  shows "metadataAttempts env req 0 0 noMetadata st
         = ((statusAfter (statusAfter (statusAfter 0 o0) o1) o2,
             metadataKept env o2 (metadataKept env o1 (metadataKept env o0 noMetadata))), s2)"
proof -
  let ?m0 = "metadataKept env o0 noMetadata"
  let ?m1 = "metadataKept env o1 ?m0"
  let ?m2 = "metadataKept env o2 ?m1"
  have lt: "(0::int) < maxRetries" "(1::int) < maxRetries" "(2::int) < maxRetries"
    "\<not> (3::int) < maxRetries"
    by (simp_all add: maxRetries_def)
  have b: "backoff 1 = 2" "backoff 2 = 4" by (simp_all add: backoff_def)
  have "metadataAttempts env req 0 0 noMetadata st
        = metadataAttempts env req 1 (statusAfter 0 o0) ?m0 s0"
    using metadataAttempts_step[OF lt(1), of 1 env req st o0 s0 0 noMetadata] assms(1,2)
    by simp
  also have "\<dots> = metadataAttempts env req 2 (statusAfter (statusAfter 0 o0) o1) ?m1 s1"
    using metadataAttempts_step[OF lt(2), of 2 env req s0 o1 s1 "statusAfter 0 o0" ?m0]
      assms(3,4) by (simp add: b)
  also have "\<dots> = metadataAttempts env req 3
                      (statusAfter (statusAfter (statusAfter 0 o0) o1) o2) ?m2 s2"
    using metadataAttempts_step[OF lt(3), of 3 env req s1 o2 s2
            "statusAfter (statusAfter 0 o0) o1" ?m1]
      assms(5,6) by (simp add: b)
  also have "\<dots> = ((statusAfter (statusAfter (statusAfter 0 o0) o1) o2, ?m2), s2)"
    using lt(4) by (rule metadataAttempts_done)
  finally show ?thesis .
qed


lemma variants_render: "filter isRender (configuredVariants ch d c out) = configuredVariants ch d c out"
  by (simp add: configuredVariants_def isRender_def)

lemma variants_upload: "filter isUpload (configuredVariants ch d c out) = []"
  by (simp add: configuredVariants_def isUpload_def)

text \<open>
  C6 (as amended). Let all three attempts of the metadata generator fail, and let the
  status code left after them differ from 200 (the code of the last response that
  arrived, or \<open>0\<close> when none did). Then \<open>GenerateMetadata\<close> returns no metadata together
  with the error "API error: status code n", and the rest of the loop body uploads
  nothing and still runs the render command of every variant the channel configures:
  cover image, vertical, horizontal.
\<close>

theorem metadata_exhaustion_skips_upload:
  assumes "send env 60 (MetadataRequest (Title aCut) (cutTranscript es aCut) (Topics channel)) st
           = (o0, s0)"
    and "metadataOf env o0 = None"
    and "send env 60 (MetadataRequest (Title aCut) (cutTranscript es aCut) (Topics channel))
           (sleep 2 s0) = (o1, s1)"
    and "metadataOf env o1 = None"
    and "send env 60 (MetadataRequest (Title aCut) (cutTranscript es aCut) (Topics channel))
           (sleep 4 s1) = (o2, s2)"
    and "metadataOf env o2 = None"
    and "statusAfter (statusAfter (statusAfter 0 o0) o1) o2 \<noteq> 200"
  shows "GenerateMetadata env (Title aCut) (cutTranscript es aCut) (Topics channel) st
         = ((None, Some (APIError (statusAfter (statusAfter (statusAfter 0 o0) o1) o2))), s2)
    \<and> filter isUpload (actionsOf (trace (finishCut env channel outputDir aCut
           tempOutputFileName outputFileName cutSubtitleFileName es st)))
       = filter isUpload (actionsOf (trace st))
    \<and> filter isRender (actionsOf (trace (finishCut env channel outputDir aCut
           tempOutputFileName outputFileName cutSubtitleFileName es st)))
       = filter isRender (actionsOf (trace st))
         @ configuredVariants channel outputDir aCut outputFileName"
proof -
  let ?code = "statusAfter (statusAfter (statusAfter 0 o0) o1) o2"
  have g: "GenerateMetadata env (Title aCut) (cutTranscript es aCut) (Topics channel) st
         = ((None, Some (APIError ?code)), s2)"
    using assms(7) metadataAttempts_exhausted[OF assms(1-6)]
    by (simp add: GenerateMetadata_def)
  have u: "filter isUpload (actionsOf (trace (finishCut env channel outputDir aCut
           tempOutputFileName outputFileName cutSubtitleFileName es st)))
       = filter isUpload (actionsOf (trace st))"
    using finishCut_without_metadata[OF g, of isUpload]
    by (simp add: isUpload_def variants_upload)
  have r: "filter isRender (actionsOf (trace (finishCut env channel outputDir aCut
           tempOutputFileName outputFileName cutSubtitleFileName es st)))
       = filter isRender (actionsOf (trace st))
         @ configuredVariants channel outputDir aCut outputFileName"
    using finishCut_without_metadata[OF g, of isRender]
    by (simp add: isRender_def variants_render)
  from g u r show ?thesis by blast
qed

theorem metadata_exhaustion_skips_upload_witness:
  "fst (GenerateMetadata (scripted 600 None (\<lambda>a. True) (\<lambda>n. TransportError) [])
          ''X'' (cutTranscript [] \<lparr>Title = ''X'', Begin = 0, End = 10\<rparr>) ''go'' start)
   = (None, Some (APIError 0))
   \<and> filter isUpload (actionsOf (trace (finishCut
         (scripted 600 None (\<lambda>a. True) (\<lambda>n. TransportError) []) plainChannel ''out''
         \<lparr>Title = ''X'', Begin = 0, End = 10\<rparr> ''out/temp_X.mp4'' ''out/horizontal/X.mp4''
         ''out/temp_X.srt'' [] start)))
     = []
   \<and> filter isRender (actionsOf (trace (finishCut
         (scripted 600 None (\<lambda>a. True) (\<lambda>n. TransportError) []) plainChannel ''out''
         \<lparr>Title = ''X'', Begin = 0, End = 10\<rparr> ''out/temp_X.mp4'' ''out/horizontal/X.mp4''
         ''out/temp_X.srt'' [] start)))
     = [CoverImage ''cover.mp4'' ''X'' ''out/covers/X.jpg'',
        Overlay ''vertical.mp4'' ''out/horizontal/X.mp4'' ''out/vertical/X.mp4'',
        Overlay ''horizontal.mp4'' ''out/horizontal/X.mp4'' ''out/horizontal-yt/X.mp4'']"
proof -
  let ?E = "scripted 600 None (\<lambda>a. True) (\<lambda>n. TransportError) []"
  let ?c = "\<lparr>Title = ''X'', Begin = 0, End = 10\<rparr>"
  let ?req = "MetadataRequest (Title ?c) (cutTranscript [] ?c) (Topics plainChannel)"
  let ?s0 = "\<lparr>world = (1::nat), trace = [Posted 60 ?req TransportError]\<rparr>"
  let ?s1 = "\<lparr>world = (2::nat), trace = [Posted 60 ?req TransportError, Slept 2,
                                          Posted 60 ?req TransportError]\<rparr>"
  let ?s2 = "\<lparr>world = (3::nat), trace = [Posted 60 ?req TransportError, Slept 2,
                                          Posted 60 ?req TransportError, Slept 4,
                                          Posted 60 ?req TransportError]\<rparr>"
  have a: "send ?E 60 ?req start = (TransportError, ?s0)"
    "send ?E 60 ?req (sleep 2 ?s0) = (TransportError, ?s1)"
    "send ?E 60 ?req (sleep 4 ?s1) = (TransportError, ?s2)"
    by (simp_all add: send_def sleep_def scripted_def start_def)
  have m: "metadataOf ?E TransportError = None" by (simp add: metadataOf_def)
  have n: "statusAfter (statusAfter (statusAfter 0 TransportError) TransportError) TransportError
           \<noteq> 200"
    by (simp add: statusAfter_def)
  have v: "configuredVariants plainChannel ''out'' ?c ''out/horizontal/X.mp4''
     = [CoverImage ''cover.mp4'' ''X'' ''out/covers/X.jpg'',
        Overlay ''vertical.mp4'' ''out/horizontal/X.mp4'' ''out/vertical/X.mp4'',
        Overlay ''horizontal.mp4'' ''out/horizontal/X.mp4'' ''out/horizontal-yt/X.mp4'']"
    by (simp add: configuredVariants_def plainChannel_def)
  note T = metadata_exhaustion_skips_upload[OF a(1) m a(2) m a(3) m n,
         of "''out''" "''out/temp_X.mp4''" "''out/horizontal/X.mp4''" "''out/temp_X.srt''"]
  have t: "Title ?c = ''X''" "Topics plainChannel = ''go''" "actionsOf (trace start) = []"
    by (simp_all add: plainChannel_def start_def)
  have "GenerateMetadata ?E (Title ?c) (cutTranscript [] ?c) (Topics plainChannel) start
        = ((None, Some (APIError 0)), ?s2)"
    using T by (simp add: statusAfter_def)
  then have g: "fst (GenerateMetadata ?E ''X'' (cutTranscript [] ?c) ''go'' start)
                = (None, Some (APIError 0))"
    by (simp only: t fst_conv)
  have u: "filter isUpload (actionsOf (trace (finishCut ?E plainChannel ''out'' ?c
             ''out/temp_X.mp4'' ''out/horizontal/X.mp4'' ''out/temp_X.srt'' [] start))) = []"
    using T by (simp only: t filter.simps)
  have r: "filter isRender (actionsOf (trace (finishCut ?E plainChannel ''out'' ?c
             ''out/temp_X.mp4'' ''out/horizontal/X.mp4'' ''out/temp_X.srt'' [] start)))
           = [CoverImage ''cover.mp4'' ''X'' ''out/covers/X.jpg'',
              Overlay ''vertical.mp4'' ''out/horizontal/X.mp4'' ''out/vertical/X.mp4'',
              Overlay ''horizontal.mp4'' ''out/horizontal/X.mp4'' ''out/horizontal-yt/X.mp4'']"
    using T by (simp only: t v filter.simps append_Nil)
  from g u r show ?thesis by blast
qed

theorem metadata_exhaustion_counterexample:
  "fst (GenerateMetadata (scripted 600 None (\<lambda>a. True) (\<lambda>n. TransportError) [])
          ''X'' ''text'' ''go'' start)
   = (None, Some (APIError 0))
   \<and> fst (GenerateMetadata (scripted 600 None (\<lambda>a. True) (\<lambda>n. Response 200 ''<html>'') [])
            ''X'' ''text'' ''go'' start)
     = (Some noMetadata, None)
   \<and> filter isUpload (actionsOf (trace (processCut
         (scripted 600 (Some ''WEBVTT'') (\<lambda>a. True) (\<lambda>n. Response 200 ''<html>'') [])
         plainChannel ''out'' ''out/v.srt'' ''out/v.mp4'' 600
         \<lparr>Title = ''X'', Begin = 0, End = 10\<rparr> start)))
     = [Upload ''out/horizontal-yt/X.mp4'' [] [] [] ''unlisted'',
        Upload ''out/vertical/X.mp4'' '' (Vertical)'' [] [] ''unlisted'']"
  by code_simp

section \<open>The segment loop\<close>

lemma segmentLoop_out_of_range:
  assumes "length subtitleSegs < i + length videoSegs" "i \<le> length subtitleSegs"
  shows "\<exists>st'. segmentLoop env ch d sub subtitleSegs i videoSegs st
               = IndexOutOfRange (length subtitleSegs) (length subtitleSegs) st'"
  using assms
proof (induction videoSegs arbitrary: i st)
  case Nil
  then show ?case by simp
next
  case (Cons v vs)
  show ?case
  proof (cases "i < length subtitleSegs")
    case True
    then have "length subtitleSegs < Suc i + length vs" "Suc i \<le> length subtitleSegs"
      using Cons.prems by simp_all
    from Cons.IH[OF this] show ?thesis using True by simp
  next
    case False
    then have "i = length subtitleSegs" using Cons.prems by simp
    then show ?thesis by simp
  qed
qed

text \<open>
  C7 (the failing run). A 2500-second video with a readable caption track, where
  writing the caption file of the second segment fails and everything else succeeds.
  \<open>splitLongVideo\<close> goes on and returns three video segments and two caption segments,
  and the segment loop of \<open>DownloadVideo\<close>, after two segments, reads
  \<open>subtitleSegments[2]\<close> of a list of length 2: the run ends in the panic "index out of
  range". \<open>segmentLoop_out_of_range\<close> above shows it for every run that returns fewer
  caption segments than video segments.
\<close>

theorem caption_write_failure_panics:
  "fst (splitLongVideo (scripted 2500 (Some ''WEBVTT'') allButPart2 (\<lambda>n. TransportError) [])
          ''out/v.mp4'' ''out/v.srt'' start)
   = Inr \<lparr>videoSegments = [''out/v.part1.mp4'', ''out/v.part2.mp4'', ''out/v.part3.mp4''],
          subtitleSegments = [''out/v.part1.srt'', ''out/v.part3.srt'']\<rparr>
   \<and> (\<exists>st. processSegments (scripted 2500 (Some ''WEBVTT'') allButPart2 (\<lambda>n. TransportError) [])
              plainChannel ''out'' ''v'' start
            = IndexOutOfRange 2 2 st)"
proof -
  let ?E = "scripted 2500 (Some ''WEBVTT'') allButPart2 (\<lambda>n. TransportError) []"
  have a: "fst (splitLongVideo ?E ''out/v.mp4'' ''out/v.srt'' start)
   = Inr \<lparr>videoSegments = [''out/v.part1.mp4'', ''out/v.part2.mp4'', ''out/v.part3.mp4''],
          subtitleSegments = [''out/v.part1.srt'', ''out/v.part3.srt'']\<rparr>"
    by code_simp
  have b: "(case processSegments ?E plainChannel ''out'' ''v'' start of
              IndexOutOfRange i n st \<Rightarrow> i = 2 \<and> n = 2 | _ \<Rightarrow> False)"
    by code_simp
  then have "\<exists>st. processSegments ?E plainChannel ''out'' ''v'' start = IndexOutOfRange 2 2 st"
    by (cases "processSegments ?E plainChannel ''out'' ''v'' start") auto
  with a show ?thesis by blast
qed

end
